theory Spec2Isabelle
  imports Complex_Main "HOL-Library.Word"
begin

unbundle bit_operations_syntax

section \<open>Tiles and configuration\<close>

text \<open>
  The sandbox's tile kinds (the \<open>TILES\<close> table of the source) and the constants of
  \<open>CONFIG\<close> the world engine reads. JavaScript numbers that hold integers (chunk
  coordinates, tile indices, the seed) are modelled as \<open>int\<close>; this is exact as long as they
  stay below \<open>2^53\<close> in magnitude, which chunk coordinates derived from a player position do.
\<close>

datatype tile = AIR | GRASS | DIRT | STONE | COAL | COPPER | WOOD | LEAVES

abbreviation CHUNK_SIZE :: nat where "CHUNK_SIZE \<equiv> 32"
abbreviation VISIBLE_RANGE :: int where "VISIBLE_RANGE \<equiv> 2"
abbreviation TILE_SIZE :: rat where "TILE_SIZE \<equiv> 12"

type_synonym grid = "tile list list"

text \<open>\<open>tiles[y][x] = v\<close>: rows are indexed first. Every write of the source is in range.\<close>

definition put :: "grid \<Rightarrow> nat \<Rightarrow> nat \<Rightarrow> tile \<Rightarrow> grid" where
  "put ts y x v = ts[y := (ts ! y)[x := v]]"

section \<open>Seeded random numbers per chunk\<close>

text \<open>
  \<open>Math.imul\<close> and the shifts work on 32-bit integers, so the hash state and the captured
  variable \<open>a\<close> of \<open>mulberry32\<close> are 32-bit words. (In the source \<open>a\<close> is a double that
  grows by \<open>0x6D2B79F5\<close> per draw and is truncated by the first bitwise operation; the
  word is the same value for the first \<open>2^53 / 0x6D2B79F5\<close> draws, far more than a chunk
  uses.)
\<close>

type_synonym rng = "32 word"

definition imul :: "32 word \<Rightarrow> 32 word \<Rightarrow> 32 word" where
  "imul a b = a * b"

text \<open>Template strings print an integer in decimal, with a leading minus sign.\<close>

definition digit_char :: "nat \<Rightarrow> char" where
  "digit_char d = ''0123456789'' ! d"

function dec_digits :: "nat \<Rightarrow> string" where
  "dec_digits n = (if n < 10 then [digit_char n]
                   else dec_digits (n div 10) @ [digit_char (n mod 10)])"
  by pat_completeness auto
termination
  by (relation "measure id") auto

declare dec_digits.simps [simp del]

definition num_str :: "int \<Rightarrow> string" where
  "num_str i = (if i < 0 then CHR ''-'' # dec_digits (nat (- i)) else dec_digits (nat i))"

definition xmur3_mix :: "32 word \<Rightarrow> char \<Rightarrow> 32 word" where
  "xmur3_mix h c =
     (let h1 = imul (h XOR of_char c) 3432918353
      in push_bit 13 h1 OR drop_bit 19 h1)"

text \<open>The hash state after the loop over the string, and one call of the returned closure.\<close>

definition xmur3 :: "string \<Rightarrow> 32 word" where
  "xmur3 str = fold (\<lambda>c h. xmur3_mix h c) str (1779033703 XOR of_nat (length str))"

definition xmur3_next :: "32 word \<Rightarrow> 32 word \<times> 32 word" where
  "xmur3_next h =
     (let h1 = imul (h XOR drop_bit 16 h) 2246822507;
          h2 = imul (h1 XOR drop_bit 13 h1) 3266489909;
          h3 = h2 XOR drop_bit 16 h2
      in (h3, h3))"

text \<open>One call of the closure returned by \<open>mulberry32\<close>: the 32-bit output and the new \<open>a\<close>.\<close>

definition mulberry32 :: "rng \<Rightarrow> 32 word \<times> rng" where
  "mulberry32 a =
     (let a' = a + 0x6D2B79F5;
          t = a';
          t1 = imul (t XOR drop_bit 15 t) (t OR 1);
          t2 = t1 XOR (t1 + imul (t1 XOR drop_bit 7 t1) (t1 OR 61))
      in (t2 XOR drop_bit 14 t2, a'))"

text \<open>\<open>rng()\<close>: the output divided by \<open>4294967296\<close>, an exact double in \<open>[0, 1)\<close>.\<close>

definition rng :: "rng \<Rightarrow> rat \<times> rng" where
  "rng a = (let (u, a') = mulberry32 a in (of_int (uint u) / 4294967296, a'))"

definition rngFor :: "int \<Rightarrow> int \<Rightarrow> int \<Rightarrow> rng" where
  "rngFor seed cx cy =
     (let s = num_str seed @ ''_'' @ num_str cx @ ''_'' @ num_str cy
      in fst (xmur3_next (xmur3 s)))"

section \<open>Chunk generation\<close>

text \<open>
  The surface formula
  \<open>Math.floor(size * 0.5 + Math.sin(worldX/10 + cy/6) * 4 + Math.floor(rng()*3 - 1))\<close>
  depends on the platform's \<open>Math.sin\<close> and on floating-point rounding. It is taken as a
  parameter: \<open>hb worldX cy j\<close> is the value of that expression when the inner
  \<open>Math.floor(rng()*3 - 1)\<close> is \<open>j\<close>. Everything proved below holds for every such function.

  The other samples are exact: \<open>rng()\<close> is a multiple of \<open>2^-32\<close>, the products with
  \<open>3\<close>, \<open>2\<close>, \<open>30\<close> and \<open>size\<close> are exact in a double, and no multiple of \<open>2^-32\<close>
  lies between a decimal threshold (\<open>0.65\<close>, \<open>0.12\<close>, \<open>0.02\<close>, \<open>0.007\<close>, \<open>0.06\<close>) and its
  nearest double, nor between \<open>k / 2.2\<close> or \<open>k - 12.8\<close> and the rounded operand, so the
  comparisons and floors are the ones of the rationals.
\<close>

type_synonym height_fn = "int \<Rightarrow> int \<Rightarrow> int \<Rightarrow> int"

definition column_tile :: "int \<Rightarrow> int \<Rightarrow> tile" where
  "column_tile surfaceY y =
     (if y < surfaceY then AIR
      else if y = surfaceY then GRASS
      else if y > surfaceY \<and> y < surfaceY + 4 then DIRT
      else STONE)"

definition surface_of :: "height_fn \<Rightarrow> int \<Rightarrow> int \<Rightarrow> nat \<Rightarrow> rng \<Rightarrow> int" where
  "surface_of hb cx cy x a =
     (let worldX = cx * int CHUNK_SIZE + int x;
          (r, a') = rng a;
          base = hb worldX cy \<lfloor>r * 3 - 1\<rfloor>
      in max 4 (min (int CHUNK_SIZE - 6) base))"

definition heightmap_column :: "height_fn \<Rightarrow> int \<Rightarrow> int \<Rightarrow> nat \<Rightarrow> rng \<times> grid \<Rightarrow> rng \<times> grid" where
  "heightmap_column hb cx cy x st =
     (let (a, ts) = st;
          surfaceY = surface_of hb cx cy x a
      in (snd (rng a),
          fold (\<lambda>y t. put t y x (column_tile surfaceY (int y))) [0..<CHUNK_SIZE] ts))"

definition heightmap :: "height_fn \<Rightarrow> int \<Rightarrow> int \<Rightarrow> rng \<times> grid \<Rightarrow> rng \<times> grid" where
  "heightmap hb cx cy st = fold (heightmap_column hb cx cy) [0..<CHUNK_SIZE] st"

text \<open>
  \<open>Math.hypot(ox, oy) <= r + 0.2\<close> on integers \<open>ox\<close>, \<open>oy\<close>, \<open>r\<close>, with both sides
  squared and scaled by 25.
\<close>

definition hypot_le :: "int \<Rightarrow> int \<Rightarrow> int \<Rightarrow> bool" where
  "hypot_le ox oy r = (25 * (ox * ox + oy * oy) \<le> (5 * r + 1) * (5 * r + 1))"

definition carve_disc :: "int \<Rightarrow> int \<Rightarrow> int \<Rightarrow> grid \<Rightarrow> grid" where
  "carve_disc tx ty r ts =
     fold (\<lambda>ox::int. fold (\<lambda>(oy::int) t.
             let nx = tx + ox; ny = ty + oy
             in if nx \<ge> 0 \<and> nx < int CHUNK_SIZE \<and> ny \<ge> 0 \<and> ny < int CHUNK_SIZE
                then (if hypot_le ox oy r then put t (nat ny) (nat nx) AIR else t)
                else t) [- r..r]) [- r..r] ts"

text \<open>One iteration of the tunnel walk: carve a disc, then move and clamp.\<close>

definition walk_step :: "rng \<times> grid \<times> int \<times> int \<Rightarrow> rng \<times> grid \<times> int \<times> int" where
  "walk_step st =
     (let (a, ts, tx, ty) = st;
          (r0, a1) = rng a;
          r = 1 + \<lfloor>r0 * (22 / 10)\<rfloor>;
          ts1 = carve_disc tx ty r ts;
          (r1, a2) = rng a1;
          tx1 = tx + \<lfloor>r1 * 3 - 1\<rfloor>;
          (r2, a3) = rng a2;
          ty1 = ty + \<lfloor>r2 * 3 - 1\<rfloor>;
          tx2 = max 1 (min (int CHUNK_SIZE - 2) tx1);
          ty2 = max 2 (min (int CHUNK_SIZE - 3) ty1)
      in (a3, ts1, tx2, ty2))"

text \<open>The upward drill \<open>for (y = ty; y >= 0; y--)\<close>, which stops after a \<open>GRASS\<close> tile.\<close>

fun drill :: "grid \<Rightarrow> nat \<Rightarrow> nat \<Rightarrow> grid" where
  "drill ts tx 0 =
     (if ts ! 0 ! tx = GRASS then put ts 0 tx AIR else put ts 0 tx AIR)"
| "drill ts tx (Suc y) =
     (if ts ! Suc y ! tx = GRASS then put ts (Suc y) tx AIR
      else drill (put ts (Suc y) tx AIR) tx y)"

definition tunnel :: "rng \<times> grid \<Rightarrow> rng \<times> grid" where
  "tunnel st =
     (let (a, ts) = st;
          (r0, a1) = rng a;
          tx = \<lfloor>r0 * of_nat CHUNK_SIZE\<rfloor>;
          (r1, a2) = rng a1;
          ty = \<lfloor>of_nat CHUNK_SIZE * (4 / 10) + r1 * of_nat CHUNK_SIZE * (5 / 10)\<rfloor>;
          (r2, a3) = rng a2;
          len = 10 + \<lfloor>r2 * 30\<rfloor>;
          (a4, ts1, tx1, ty1) = (walk_step ^^ nat len) (a3, ts, tx, ty);
          (r3, a5) = rng a4
      in if r3 < 12 / 100 then (a5, drill ts1 (nat tx1) (nat ty1)) else (a5, ts1))"

definition caves :: "rng \<times> grid \<Rightarrow> rng \<times> grid" where
  "caves st =
     (let (a, ts) = st;
          (r, a1) = rng a
      in if r < 65 / 100
         then (let (r1, a2) = rng a1;
                   tunnels = 1 + \<lfloor>r1 * 2\<rfloor>
               in (tunnel ^^ nat tunnels) (a2, ts))
         else (a1, ts))"

text \<open>The ore pass visits every cell, column by column, and draws only on \<open>STONE\<close>.\<close>

definition ore_cell :: "nat \<Rightarrow> nat \<Rightarrow> rng \<times> grid \<Rightarrow> rng \<times> grid" where
  "ore_cell x y st =
     (let (a, ts) = st
      in if ts ! y ! x = STONE
         then (let (r, a1) = rng a
               in if r < 2 / 100 then (a1, put ts y x COAL)
                  else if r < 7 / 1000 then (a1, put ts y x COPPER)
                  else (a1, ts))
         else (a, ts))"

definition ores :: "rng \<times> grid \<Rightarrow> rng \<times> grid" where
  "ores st = fold (\<lambda>x. fold (\<lambda>y. ore_cell x y) [0..<CHUNK_SIZE]) [0..<CHUNK_SIZE] st"

definition leaves_blob :: "int \<Rightarrow> int \<Rightarrow> grid \<Rightarrow> grid" where
  "leaves_blob x topY ts =
     fold (\<lambda>lx::int. fold (\<lambda>(ly::int) t.
             let nx = x + lx; ny = topY + ly
             in if nx \<ge> 0 \<and> nx < int CHUNK_SIZE \<and> ny \<ge> 0 \<and> ny < int CHUNK_SIZE
                then (if \<bar>lx\<bar> + \<bar>ly\<bar> < (4::int) \<and> t ! nat ny ! nat nx = AIR
                      then put t (nat ny) (nat nx) LEAVES else t)
                else t) [- 2..(1::int)]) [- 2..(2::int)] ts"

text \<open>
  The trunk loop \<open>for (t = 1; t <= trunk && (y - t) >= 0; t++)\<close> runs over the initial
  segment of \<open>1..trunk\<close> on which \<open>y - t >= 0\<close>.
\<close>

definition grow_trunk :: "nat \<Rightarrow> nat \<Rightarrow> int \<Rightarrow> grid \<Rightarrow> grid" where
  "grow_trunk x y trunk ts =
     fold (\<lambda>t tl. put tl (nat (int y - t)) x WOOD)
          (takeWhile (\<lambda>t. int y - t \<ge> 0) [1..trunk]) ts"

definition tree_column :: "nat \<Rightarrow> rng \<times> grid \<Rightarrow> rng \<times> grid" where
  "tree_column x st =
     (let (a, ts) = st;
          (r, a1) = rng a
      in if r < 6 / 100
         then (case find (\<lambda>y. ts ! y ! x = GRASS) [0..<CHUNK_SIZE - 1] of
                 None \<Rightarrow> (a1, ts)
               | Some y \<Rightarrow>
                   (let (r1, a2) = rng a1;
                        trunk = 3 + \<lfloor>r1 * 3\<rfloor>;
                        ts1 = grow_trunk x y trunk ts;
                        topY = int y - trunk
                    in (a2, leaves_blob (int x) topY ts1)))
         else (a1, ts))"

definition trees :: "rng \<times> grid \<Rightarrow> rng \<times> grid" where
  "trees st = fold tree_column [2..<CHUNK_SIZE - 2] st"

record chunk =
  tiles :: grid
  modified :: bool

definition empty_grid :: grid where
  "empty_grid = replicate CHUNK_SIZE (replicate CHUNK_SIZE AIR)"

definition generateChunk :: "height_fn \<Rightarrow> int \<Rightarrow> int \<Rightarrow> int \<Rightarrow> chunk" where
  "generateChunk hb seed cx cy =
     (let a0 = rngFor seed cx cy;
          st1 = heightmap hb cx cy (a0, empty_grid);
          st2 = caves st1;
          st3 = ores st2;
          st4 = trees st3
      in \<lparr>tiles = snd st4, modified = False\<rparr>)"

section \<open>The chunk store and the world accessor\<close>

text \<open>
  The player and the global state of the script. Coordinates and velocities are
  JavaScript doubles; they are modelled as rationals, that is, without rounding.
  \<open>keys\<close> is the set of key names whose entry in the source's \<open>keys\<close> object is true,
  \<open>save_scheduled\<close> says that \<open>scheduleWorldSave\<close> has armed its timer.
\<close>

record player =
  px :: rat
  py :: rat
  pvx :: rat
  pvy :: rat
  pw :: rat
  ph :: rat
  grounded :: bool
  inventory :: "string \<rightharpoonup> int"

record game =
  SEED :: int
  chunks :: "string \<rightharpoonup> chunk"
  player :: player
  keys :: "string set"
  mouse_x :: rat
  mouse_y :: rat
  mouse_down :: bool
  canvas_width :: rat
  canvas_height :: rat
  save_scheduled :: bool

definition ck :: "int \<Rightarrow> int \<Rightarrow> string" where
  "ck cx cy = num_str cx @ '','' @ num_str cy"

definition ensureChunk :: "height_fn \<Rightarrow> game \<Rightarrow> int \<Rightarrow> int \<Rightarrow> chunk \<times> game" where
  "ensureChunk hb g cx cy =
     (let key = ck cx cy
      in case chunks g key of
           None \<Rightarrow>
             (let c = generateChunk hb (SEED g) cx cy
              in (c, g\<lparr>chunks := (chunks g)(key \<mapsto> c)\<rparr>))
         | Some c \<Rightarrow> (c, g))"

text \<open>JavaScript's \<open>%\<close> truncates: the remainder has the sign of the dividend.\<close>

definition js_rem :: "int \<Rightarrow> int \<Rightarrow> int" where
  "js_rem a b = sgn a * (\<bar>a\<bar> mod \<bar>b\<bar>)"

text \<open>
  The coordinate resolution shared by \<open>getTile\<close> and \<open>setTile\<close>:
  \<open>Math.floor(Math.floor(worldX) / s)\<close> and \<open>((Math.floor(worldX) % s) + s) % s\<close>.
\<close>

definition chunk_coord :: "rat \<Rightarrow> int" where
  "chunk_coord worldX = \<lfloor>of_int \<lfloor>worldX\<rfloor> / (of_nat CHUNK_SIZE :: rat)\<rfloor>"

definition local_coord :: "rat \<Rightarrow> int" where
  "local_coord worldX =
     js_rem (js_rem \<lfloor>worldX\<rfloor> (int CHUNK_SIZE) + int CHUNK_SIZE) (int CHUNK_SIZE)"

definition getTile :: "height_fn \<Rightarrow> game \<Rightarrow> rat \<Rightarrow> rat \<Rightarrow> tile \<times> game" where
  "getTile hb g worldX worldY =
     (let cx = chunk_coord worldX;
          cy = chunk_coord worldY;
          (c, g1) = ensureChunk hb g cx cy;
          lx = local_coord worldX;
          ly = local_coord worldY
      in (tiles c ! nat ly ! nat lx, g1))"

definition scheduleWorldSave :: "game \<Rightarrow> game" where
  "scheduleWorldSave g = g\<lparr>save_scheduled := True\<rparr>"

text \<open>
  \<open>setTile\<close> mutates the chunk object held by the store; the model writes the changed
  chunk back under its key.
\<close>

definition setTile :: "height_fn \<Rightarrow> game \<Rightarrow> rat \<Rightarrow> rat \<Rightarrow> tile \<Rightarrow> game" where
  "setTile hb g worldX worldY v =
     (let cx = chunk_coord worldX;
          cy = chunk_coord worldY;
          (c, g1) = ensureChunk hb g cx cy;
          lx = local_coord worldX;
          ly = local_coord worldY;
          c1 = c\<lparr>tiles := put (tiles c) (nat ly) (nat lx) v\<rparr>;
          c2 = c1\<lparr>modified := True\<rparr>
      in scheduleWorldSave (g1\<lparr>chunks := (chunks g1)(ck cx cy \<mapsto> c2)\<rparr>))"

section \<open>Collision substrate, mining and streaming\<close>

definition tileSolid :: "tile \<Rightarrow> bool" where
  "tileSolid t = (t \<noteq> AIR \<and> t \<noteq> LEAVES)"

text \<open>\<open>add(inv, item, count)\<close>: \<open>inv[item] = (inv[item] || 0) + count\<close>.\<close>

definition add :: "(string \<rightharpoonup> int) \<Rightarrow> string \<Rightarrow> int \<Rightarrow> (string \<rightharpoonup> int)" where
  "add iv item count = iv(item \<mapsto> (case iv item of None \<Rightarrow> 0 | Some c \<Rightarrow> c) + count)"

definition add_inventory :: "game \<Rightarrow> string \<Rightarrow> game" where
  "add_inventory g item =
     g\<lparr>player := (player g)\<lparr>inventory := add (inventory (player g)) item 1\<rparr>\<rparr>"

text \<open>The world tile under the pointer, as \<open>tickMining\<close> computes it from the camera.\<close>

definition pointer_tile :: "game \<Rightarrow> int \<times> int" where
  "pointer_tile g =
     (let tw = TILE_SIZE;
          screenW = canvas_width g; screenH = canvas_height g;
          camX = px (player g) * tw - screenW / 2 + (pw (player g) * tw) / 2;
          camY = py (player g) * tw - screenH / 2 + (ph (player g) * tw) / 2;
          wx = \<lfloor>(mouse_x g + camX) / tw\<rfloor>;
          wy = \<lfloor>(mouse_y g + camY) / tw\<rfloor>
      in (wx, wy))"

definition tickMining :: "height_fn \<Rightarrow> game \<Rightarrow> game" where
  "tickMining hb g =
     (if mouse_down g
      then (let (wx, wy) = pointer_tile g;
                (t, g1) = getTile hb g (of_int wx) (of_int wy)
            in if t \<noteq> AIR
               then (let g2 = setTile hb g1 (of_int wx) (of_int wy) AIR
                     in if t = WOOD then add_inventory g2 ''wood''
                        else if t = COAL then add_inventory g2 ''coal''
                        else if t = COPPER then add_inventory g2 ''copper''
                        else if t = DIRT \<or> t = GRASS then add_inventory g2 ''dirt''
                        else if t = STONE then add_inventory g2 ''stone''
                        else g2)
               else g1)
      else g)"

definition streamChunksAroundPlayer :: "height_fn \<Rightarrow> game \<Rightarrow> game" where
  "streamChunksAroundPlayer hb g =
     (let pcx = \<lfloor>px (player g) / of_nat CHUNK_SIZE\<rfloor>;
          pcy = \<lfloor>py (player g) / of_nat CHUNK_SIZE\<rfloor>;
          range = VISIBLE_RANGE
      in fold (\<lambda>oy::int. fold (\<lambda>(ox::int) g1. snd (ensureChunk hb g1 (pcx + ox) (pcy + oy)))
                          [- range..range])
              [- range..range] g)"

section \<open>The physics tick\<close>

text \<open>
  \<open>rectCollidesWithTiles\<close> visits the cells of the rectangle row by row and returns at the
  first solid one. Each \<open>getTile\<close> may add a chunk to the store, so the state is threaded
  through the scan.
\<close>

fun scan_cells :: "height_fn \<Rightarrow> game \<Rightarrow> (int \<times> int) list \<Rightarrow> bool \<times> game" where
  "scan_cells hb g [] = (False, g)"
| "scan_cells hb g ((tx, ty) # cs) =
     (let (t, g1) = getTile hb g (of_int tx) (of_int ty)
      in if tileSolid t then (True, g1) else scan_cells hb g1 cs)"

definition rect_cells :: "rat \<Rightarrow> rat \<Rightarrow> rat \<Rightarrow> rat \<Rightarrow> (int \<times> int) list" where
  "rect_cells x y w h =
     (let startX = \<lfloor>x - 1 / 100\<rfloor>; endX = \<lfloor>x + w - 1 / 100\<rfloor>;
          startY = \<lfloor>y - 1 / 100\<rfloor>; endY = \<lfloor>y + h - 1 / 100\<rfloor>
      in concat (map (\<lambda>ty. map (\<lambda>tx. (tx, ty)) [startX..endX]) [startY..endY]))"

definition rectCollidesWithTiles ::
    "height_fn \<Rightarrow> game \<Rightarrow> rat \<Rightarrow> rat \<Rightarrow> rat \<Rightarrow> rat \<Rightarrow> bool \<times> game" where
  "rectCollidesWithTiles hb g x y w h = scan_cells hb g (rect_cells x y w h)"

abbreviation STEP :: rat where "STEP \<equiv> 1 / 60"

text \<open>Keyboard input: horizontal target velocity and the jump.\<close>

definition apply_input :: "game \<Rightarrow> game" where
  "apply_input g =
     (let speed = 6;
          p = player g;
          p1 = (if ''a'' \<in> keys g \<or> ''arrowleft'' \<in> keys g then p\<lparr>pvx := - speed\<rparr>
                else if ''d'' \<in> keys g \<or> ''arrowright'' \<in> keys g then p\<lparr>pvx := speed\<rparr>
                else p\<lparr>pvx := 0\<rparr>);
          p2 = (if (''w'' \<in> keys g \<or> '' '' \<in> keys g) \<and> grounded p1
                then p1\<lparr>pvy := - 10, grounded := False\<rparr> else p1)
      in g\<lparr>player := p2\<rparr>)"

definition gravity :: "rat \<Rightarrow> game \<Rightarrow> game" where
  "gravity dt g = g\<lparr>player := (player g)\<lparr>pvy := pvy (player g) + 30 * dt\<rparr>\<rparr>"

definition move_x :: "game \<Rightarrow> rat \<Rightarrow> game" where
  "move_x g d = g\<lparr>player := (player g)\<lparr>px := px (player g) + d\<rparr>\<rparr>"

text \<open>
  The loop \<open>while (sign !== 0 && !rectCollidesWithTiles(player.x + sign*0.01, ...))\<close>.
  Nothing in the loop itself bounds the number of iterations, so it is a partial function;
  that it returns in every tick is proved below for this model (\<open>gameStep_returns\<close>).
  The model adds \<open>1/100\<close> exactly, the source adds the double \<open>0.01\<close> with rounding:
  where a step lands exactly on a cell boundary the two can differ by one step (with key
  \<open>d\<close> in the gallery below the model stops at \<open>x = 7.1\<close> after five steps, the source
  at \<open>7.1099999999999985\<close> after six). No property stated below runs through this loop
  except \<open>gameStep_returns\<close>, which is a statement about exact arithmetic.
\<close>

partial_function (option) slide :: "height_fn \<Rightarrow> rat \<Rightarrow> game \<Rightarrow> game option" where
  "slide hb sign g =
     (if sign \<noteq> 0
      then (let p = player g;
                (c, g1) = rectCollidesWithTiles hb g (px p + sign * (1 / 100)) (py p) (pw p) (ph p)
            in if \<not> c then slide hb sign (move_x g1 (sign * (1 / 100))) else Some g1)
      else Some g)"

definition horizontal :: "height_fn \<Rightarrow> rat \<Rightarrow> game \<Rightarrow> game option" where
  "horizontal hb nx g =
     (let p = player g;
          (c, g1) = rectCollidesWithTiles hb g nx (py p) (pw p) (ph p)
      in if \<not> c then Some (g1\<lparr>player := (player g1)\<lparr>px := nx\<rparr>\<rparr>)
         else (case slide hb (sgn (pvx p)) g1 of
                 None \<Rightarrow> None
               | Some g2 \<Rightarrow> Some (g2\<lparr>player := (player g2)\<lparr>pvx := 0\<rparr>\<rparr>)))"

text \<open>
  The vertical branch, statement by statement: the landing test, \<open>player.vy = 0\<close>, and
  then the guard \<open>if (player.vy >= 0)\<close> around the snap.
\<close>

definition vertical :: "height_fn \<Rightarrow> rat \<Rightarrow> game \<Rightarrow> game" where
  "vertical hb ny g =
     (let p = player g;
          (c, g1) = rectCollidesWithTiles hb g (px p) ny (pw p) (ph p);
          q = player g1
      in if \<not> c then g1\<lparr>player := q\<lparr>py := ny, grounded := False\<rparr>\<rparr>
         else (let q1 = (if pvy q > 0 then q\<lparr>grounded := True\<rparr> else q);
                   q2 = q1\<lparr>pvy := 0\<rparr>;
                   q3 = (if pvy q2 \<ge> 0
                         then q2\<lparr>py := of_int \<lfloor>py q2 + ph q2\<rfloor> - ph q2\<rparr> else q2)
               in g1\<lparr>player := q3\<rparr>))"

text \<open>
  One tick. \<open>render()\<close> at the end of the source's \<open>gameStep\<close> only draws; its tile
  reads can generate further chunks but change no tile and nothing of the player, and it
  is left out.
\<close>

definition gameStep :: "height_fn \<Rightarrow> rat \<Rightarrow> game \<Rightarrow> game option" where
  "gameStep hb dt g =
     (let g1 = gravity dt (apply_input g);
          nx = px (player g1) + pvx (player g1) * dt;
          ny = py (player g1) + pvy (player g1) * dt
      in case horizontal hb nx g1 of
           None \<Rightarrow> None
         | Some g2 \<Rightarrow> Some (streamChunksAroundPlayer hb (vertical hb ny g2)))"

text \<open>A run of fixed-timestep ticks, with the set of pressed keys given for each tick.\<close>

fun run_ticks :: "height_fn \<Rightarrow> string set list \<Rightarrow> game \<Rightarrow> game option" where
  "run_ticks hb [] g = Some g"
| "run_ticks hb (k # ks) g =
     (case gameStep hb STEP (g\<lparr>keys := k\<rparr>) of
        None \<Rightarrow> None
      | Some g1 \<Rightarrow> run_ticks hb ks g1)"

text \<open>Whether the player's bounding box overlaps a solid tile.\<close>

definition player_overlaps :: "height_fn \<Rightarrow> game \<Rightarrow> bool" where
  "player_overlaps hb g =
     fst (rectCollidesWithTiles hb g (px (player g)) (py (player g))
            (pw (player g)) (ph (player g)))"

section \<open>Chunk generation in the runtime state\<close>

text \<open>
  The source's generator is not written in state-passing style. \<open>rngFor\<close> returns a
  closure whose captured variable \<open>a\<close> every call updates in place, and the script has
  more mutable state around it: the clock, the closures created earlier, the chunk map, the
  player. This section embeds \<open>generateChunk\<close> once more, as the effectful program it
  is. A runtime state holds the clock (\<open>Date.now()\<close>), a store of cells for the captured
  variables of closures, the allocation counter for new closures, and the script's globals;
  the generator receives all of it and returns the state it leaves behind.
\<close>

record runtime =
  rt_now :: int
  rt_cells :: "nat \<Rightarrow> 32 word"
  rt_next :: nat
  rt_script :: game

text \<open>Loading the script sets \<open>CONFIG.SEED\<close> to \<open>(Date.now() % 1000000) | 0\<close>.\<close>

definition load_config :: "runtime \<Rightarrow> runtime" where
  "load_config rt = rt\<lparr>rt_script := (rt_script rt)\<lparr>SEED := js_rem (rt_now rt) 1000000\<rparr>\<rparr>"

text \<open>
  Creating a closure allocates a cell for its captured variable. \<open>xmur3(str)\<close> captures
  the hash state \<open>h\<close>, \<open>mulberry32(a)\<close> captures \<open>a\<close>; a call reads the cell and
  writes it back.
\<close>

definition new_cell :: "32 word \<Rightarrow> runtime \<Rightarrow> nat \<times> runtime" where
  "new_cell v rt =
     (rt_next rt, rt\<lparr>rt_cells := (rt_cells rt)(rt_next rt := v), rt_next := Suc (rt_next rt)\<rparr>)"

definition call_xmur3 :: "nat \<Rightarrow> runtime \<Rightarrow> 32 word \<times> runtime" where
  "call_xmur3 c rt =
     (let (out, h) = xmur3_next (rt_cells rt c)
      in (out, rt\<lparr>rt_cells := (rt_cells rt)(c := h)\<rparr>))"

definition call_rng :: "nat \<Rightarrow> runtime \<Rightarrow> rat \<times> runtime" where
  "call_rng c rt =
     (let (r, a) = rng (rt_cells rt c)
      in (r, rt\<lparr>rt_cells := (rt_cells rt)(c := a)\<rparr>))"

definition rngFor_rt :: "int \<Rightarrow> int \<Rightarrow> int \<Rightarrow> runtime \<Rightarrow> nat \<times> runtime" where
  "rngFor_rt seed cx cy rt =
     (let s = num_str seed @ ''_'' @ num_str cx @ ''_'' @ num_str cy;
          (hc, rt1) = new_cell (xmur3 s) rt;
          (h, rt2) = call_xmur3 hc rt1
      in new_cell h rt2)"

text \<open>
  The passes of \<open>generateChunk\<close>, with \<open>rng\<close> the closure in cell \<open>c\<close> and every
  \<open>rng()\<close> a call on the runtime state. The loops and tests are those of the source, in
  its order of draws.
\<close>

definition heightmap_column_rt ::
    "height_fn \<Rightarrow> int \<Rightarrow> int \<Rightarrow> nat \<Rightarrow> nat \<Rightarrow> runtime \<times> grid \<Rightarrow> runtime \<times> grid" where
  "heightmap_column_rt hb cx cy c x st =
     (let (rt, ts) = st;
          worldX = cx * int CHUNK_SIZE + int x;
          (r, rt1) = call_rng c rt;
          base = hb worldX cy \<lfloor>r * 3 - 1\<rfloor>;
          surfaceY = max 4 (min (int CHUNK_SIZE - 6) base)
      in (rt1, fold (\<lambda>y t. put t y x (column_tile surfaceY (int y))) [0..<CHUNK_SIZE] ts))"

definition heightmap_rt ::
    "height_fn \<Rightarrow> int \<Rightarrow> int \<Rightarrow> nat \<Rightarrow> runtime \<times> grid \<Rightarrow> runtime \<times> grid" where
  "heightmap_rt hb cx cy c st = fold (heightmap_column_rt hb cx cy c) [0..<CHUNK_SIZE] st"

definition walk_step_rt ::
    "nat \<Rightarrow> runtime \<times> grid \<times> int \<times> int \<Rightarrow> runtime \<times> grid \<times> int \<times> int" where
  "walk_step_rt c st =
     (let (rt, ts, tx, ty) = st;
          (r0, rt1) = call_rng c rt;
          r = 1 + \<lfloor>r0 * (22 / 10)\<rfloor>;
          ts1 = carve_disc tx ty r ts;
          (r1, rt2) = call_rng c rt1;
          tx1 = tx + \<lfloor>r1 * 3 - 1\<rfloor>;
          (r2, rt3) = call_rng c rt2;
          ty1 = ty + \<lfloor>r2 * 3 - 1\<rfloor>;
          tx2 = max 1 (min (int CHUNK_SIZE - 2) tx1);
          ty2 = max 2 (min (int CHUNK_SIZE - 3) ty1)
      in (rt3, ts1, tx2, ty2))"

definition tunnel_rt :: "nat \<Rightarrow> runtime \<times> grid \<Rightarrow> runtime \<times> grid" where
  "tunnel_rt c st =
     (let (rt, ts) = st;
          (r0, rt1) = call_rng c rt;
          tx = \<lfloor>r0 * of_nat CHUNK_SIZE\<rfloor>;
          (r1, rt2) = call_rng c rt1;
          ty = \<lfloor>of_nat CHUNK_SIZE * (4 / 10) + r1 * of_nat CHUNK_SIZE * (5 / 10)\<rfloor>;
          (r2, rt3) = call_rng c rt2;
          len = 10 + \<lfloor>r2 * 30\<rfloor>;
          (rt4, ts1, tx1, ty1) = (walk_step_rt c ^^ nat len) (rt3, ts, tx, ty);
          (r3, rt5) = call_rng c rt4
      in if r3 < 12 / 100 then (rt5, drill ts1 (nat tx1) (nat ty1)) else (rt5, ts1))"

definition caves_rt :: "nat \<Rightarrow> runtime \<times> grid \<Rightarrow> runtime \<times> grid" where
  "caves_rt c st =
     (let (rt, ts) = st;
          (r, rt1) = call_rng c rt
      in if r < 65 / 100
         then (let (r1, rt2) = call_rng c rt1;
                   tunnels = 1 + \<lfloor>r1 * 2\<rfloor>
               in (tunnel_rt c ^^ nat tunnels) (rt2, ts))
         else (rt1, ts))"

definition ore_cell_rt :: "nat \<Rightarrow> nat \<Rightarrow> nat \<Rightarrow> runtime \<times> grid \<Rightarrow> runtime \<times> grid" where
  "ore_cell_rt c x y st =
     (let (rt, ts) = st
      in if ts ! y ! x = STONE
         then (let (r, rt1) = call_rng c rt
               in if r < 2 / 100 then (rt1, put ts y x COAL)
                  else if r < 7 / 1000 then (rt1, put ts y x COPPER)
                  else (rt1, ts))
         else (rt, ts))"

definition ores_rt :: "nat \<Rightarrow> runtime \<times> grid \<Rightarrow> runtime \<times> grid" where
  "ores_rt c st =
     fold (\<lambda>x. fold (\<lambda>y. ore_cell_rt c x y) [0..<CHUNK_SIZE]) [0..<CHUNK_SIZE] st"

definition tree_column_rt :: "nat \<Rightarrow> nat \<Rightarrow> runtime \<times> grid \<Rightarrow> runtime \<times> grid" where
  "tree_column_rt c x st =
     (let (rt, ts) = st;
          (r, rt1) = call_rng c rt
      in if r < 6 / 100
         then (case find (\<lambda>y. ts ! y ! x = GRASS) [0..<CHUNK_SIZE - 1] of
                 None \<Rightarrow> (rt1, ts)
               | Some y \<Rightarrow>
                   (let (r1, rt2) = call_rng c rt1;
                        trunk = 3 + \<lfloor>r1 * 3\<rfloor>;
                        ts1 = grow_trunk x y trunk ts;
                        topY = int y - trunk
                    in (rt2, leaves_blob (int x) topY ts1)))
         else (rt1, ts))"

definition trees_rt :: "nat \<Rightarrow> runtime \<times> grid \<Rightarrow> runtime \<times> grid" where
  "trees_rt c st = fold (tree_column_rt c) [2..<CHUNK_SIZE - 2] st"

definition generateChunk_rt :: "height_fn \<Rightarrow> int \<Rightarrow> int \<Rightarrow> runtime \<Rightarrow> chunk \<times> runtime" where
  "generateChunk_rt hb cx cy rt =
     (let (c, rt0) = rngFor_rt (SEED (rt_script rt)) cx cy rt;
          st1 = heightmap_rt hb cx cy c (rt0, empty_grid);
          st2 = caves_rt c st1;
          st3 = ores_rt c st2;
          st4 = trees_rt c st3
      in (\<lparr>tiles = snd st4, modified = False\<rparr>, fst st4))"

section \<open>Well-formed grids and observations\<close>

text \<open>A grid as the generator builds it: \<open>CHUNK_SIZE\<close> rows of \<open>CHUNK_SIZE\<close> tiles.\<close>

definition grid_ok :: "grid \<Rightarrow> bool" where
  "grid_ok ts = (length ts = CHUNK_SIZE \<and> list_all (\<lambda>row. length row = CHUNK_SIZE) ts)"

definition wf_store :: "game \<Rightarrow> bool" where
  "wf_store g = (\<forall>c \<in> ran (chunks g). grid_ok (tiles c))"

text \<open>
  The grid after the heightmap pass of \<open>generateChunk\<close>, and the surface row the pass
  computes for column \<open>x\<close>, from the draw that follows the \<open>x\<close> earlier ones.
\<close>

definition heightmap_tiles :: "height_fn \<Rightarrow> int \<Rightarrow> int \<Rightarrow> int \<Rightarrow> grid" where
  "heightmap_tiles hb seed cx cy = snd (heightmap hb cx cy (rngFor seed cx cy, empty_grid))"

definition surface_row :: "height_fn \<Rightarrow> int \<Rightarrow> int \<Rightarrow> int \<Rightarrow> nat \<Rightarrow> int" where
  "surface_row hb seed cx cy x =
     surface_of hb cx cy x (((\<lambda>a. snd (rng a)) ^^ x) (rngFor seed cx cy))"

text \<open>No cell of the grid holds \<open>COPPER\<close>.\<close>

definition no_copper :: "grid \<Rightarrow> bool" where
  "no_copper ts = (COPPER \<notin> set (concat ts))"

text \<open>The number a decimal string denotes, to read chunk keys back.\<close>

definition dec_value :: "string \<Rightarrow> nat" where
  "dec_value s = foldl (\<lambda>acc c. 10 * acc + (of_char c - 48)) 0 s"

text \<open>
  Two states show the same world when \<open>getTile\<close> returns the same tile in both at every
  coordinate.
\<close>

definition same_tiles :: "height_fn \<Rightarrow> game \<Rightarrow> game \<Rightarrow> bool" where
  "same_tiles hb g g' = (\<forall>wx wy. fst (getTile hb g' wx wy) = fst (getTile hb g wx wy))"

text \<open>
  A state-passing pass run on the cell \<open>c\<close> of a runtime state: it reads the cell, and
  writes the new value back to it and to nothing else.
\<close>

definition with_cell :: "nat \<Rightarrow> 32 word \<Rightarrow> runtime \<Rightarrow> runtime" where
  "with_cell c a rt = rt\<lparr>rt_cells := (rt_cells rt)(c := a)\<rparr>"

definition lift :: "nat \<Rightarrow> (rng \<times> 'a \<Rightarrow> rng \<times> 'a) \<Rightarrow> runtime \<times> 'a \<Rightarrow> runtime \<times> 'a" where
  "lift c f st =
     (with_cell c (fst (f (rt_cells (fst st) c, snd st))) (fst st),
      snd (f (rt_cells (fst st) c, snd st)))"

section \<open>Concrete inputs\<close>

text \<open>
  The surface formula where the sine term is zero, as at \<open>worldX = 0\<close>, \<open>cy = 0\<close>
  (\<open>Math.sin(0)\<close> is \<open>0\<close>): \<open>Math.floor(16 + 0 + j)\<close>.
\<close>

definition hb_flat :: height_fn where
  "hb_flat worldX cy j = 16 + j"

text \<open>The player as the source creates it, and a game state with an empty chunk store.\<close>

definition player0 :: player where
  "player0 = \<lparr>px = 60, py = 10, pvx = 0, pvy = 0, pw = 9 / 10, ph = 18 / 10,
              grounded = False, inventory = Map.empty\<rparr>"

definition game0 :: game where
  "game0 = \<lparr>SEED = 42, chunks = Map.empty, player = player0, keys = {},
            mouse_x = 0, mouse_y = 0, mouse_down = False,
            canvas_width = 320, canvas_height = 240, save_scheduled = False\<rparr>"

text \<open>
  A chunk with a flat surface at row 16 in which a shaft (column 5, rows 16 to 23) and a
  two-tile-high gallery (columns 6 and 7, rows 22 and 23) have been mined, and a player
  standing at the end of the gallery, on the stone of row 24 and under the stone of row 21.
\<close>

definition gallery_cell :: "nat \<Rightarrow> nat \<Rightarrow> tile" where
  "gallery_cell y x =
     (if (x = 5 \<and> 16 \<le> y \<and> y \<le> 23) \<or> ((x = 6 \<or> x = 7) \<and> (y = 22 \<or> y = 23)) then AIR
      else column_tile 16 (int y))"

definition gallery_chunk :: chunk where
  "gallery_chunk =
     \<lparr>tiles = map (\<lambda>y. map (\<lambda>x. gallery_cell y x) [0..<CHUNK_SIZE]) [0..<CHUNK_SIZE],
      modified = True\<rparr>"

definition gallery_game :: game where
  "gallery_game =
     game0\<lparr>chunks := [ck 0 0 \<mapsto> gallery_chunk],
           player := player0\<lparr>px := 705 / 100, py := 222 / 10, grounded := True\<rparr>\<rparr>"

text \<open>
  The tile-to-resource table of the specification's mining contract, to compare
  \<open>tickMining\<close> with: \<open>WOOD\<close> gives wood, \<open>COAL\<close> coal, \<open>COPPER\<close> copper,
  \<open>DIRT\<close> and \<open>GRASS\<close> dirt, \<open>STONE\<close> stone; \<open>AIR\<close> and \<open>LEAVES\<close> give nothing.
\<close>

definition spec_resource :: "tile \<Rightarrow> string option" where
  "spec_resource t =
     (case t of WOOD \<Rightarrow> Some ''wood'' | COAL \<Rightarrow> Some ''coal'' | COPPER \<Rightarrow> Some ''copper''
      | DIRT \<Rightarrow> Some ''dirt'' | GRASS \<Rightarrow> Some ''dirt'' | STONE \<Rightarrow> Some ''stone''
      | AIR \<Rightarrow> None | LEAVES \<Rightarrow> None)"

text \<open>The gallery with the mouse held down over the stone tile \<open>(7, 21)\<close>.\<close>

definition mining_game :: game where
  "mining_game = gallery_game\<lparr>mouse_x := 154, mouse_y := 100, mouse_down := True\<rparr>"

text \<open>
  The same gallery with the player in mid-jump: moving up at \<open>8.5\<close> tiles per second
  (after gravity), head just below the stone of row 21. The tentative move
  \<open>y + vy * dt\<close> of the next tick is \<open>22.05 - 8.5 / 60 = 2629 / 120\<close>.
\<close>

definition jumping_game :: game where
  "jumping_game =
     gallery_game\<lparr>player := (player gallery_game)\<lparr>py := 2205 / 100, pvy := - 17 / 2,
                                                  grounded := False\<rparr>\<rparr>"

text \<open>Cell lists that lie inside chunk \<open>(0, 0)\<close>, and whether one hits a solid gallery tile.\<close>

definition in_chunk0 :: "(int \<times> int) list \<Rightarrow> bool" where
  "in_chunk0 cs = list_all (\<lambda>(tx, ty). 0 \<le> tx \<and> tx < 32 \<and> 0 \<le> ty \<and> ty < 32) cs"

definition gallery_hit :: "(int \<times> int) list \<Rightarrow> bool" where
  "gallery_hit cs = list_ex (\<lambda>(tx, ty). tileSolid (gallery_cell (nat ty) (nat tx))) cs"

text \<open>
  Two runs of the script started at different times that fall on the same seed, with
  different closure stores, allocation counters and globals.
\<close>

definition runtime_a :: runtime where
  "runtime_a =
     load_config \<lparr>rt_now = 1730000000042, rt_cells = (\<lambda>c. 0), rt_next = 0, rt_script = game0\<rparr>"

definition runtime_b :: runtime where
  "runtime_b =
     load_config \<lparr>rt_now = 5000042, rt_cells = (\<lambda>c. 7), rt_next = 3, rt_script = gallery_game\<rparr>"

section \<open>Properties\<close>

subsection \<open>Evaluation of floors and chunk keys\<close>

lemma floor_rat_numeral [simp]:
  "\<lfloor>numeral a / numeral b :: rat\<rfloor> = numeral a div numeral b"
  using floor_divide_of_int_eq [of "numeral a" "numeral b", where ?'a = rat] by simp

lemma floor_rat_neg_numeral [simp]:
  "\<lfloor>- (numeral a / numeral b) :: rat\<rfloor> = - numeral a div numeral b"
  using floor_divide_of_int_eq [of "- numeral a" "numeral b", where ?'a = rat] by simp

lemma floor_rat_minus_one [simp]: "\<lfloor>- 1 :: rat\<rfloor> = - 1"
  using floor_of_int [of "- 1", where ?'a = rat] by simp

lemmas key_simps = ck_def num_str_def dec_digits.simps digit_char_def

subsection \<open>Coordinate resolution\<close>

lemma chunk_coord_div: "chunk_coord w = \<lfloor>w\<rfloor> div 32"
proof -
  have "\<lfloor>of_int \<lfloor>w\<rfloor> / (of_int 32 :: rat)\<rfloor> = \<lfloor>w\<rfloor> div 32"
    by (rule floor_divide_of_int_eq)
  then show ?thesis by (simp add: chunk_coord_def)
qed

lemma js_rem_pos: "0 \<le> a \<Longrightarrow> js_rem a 32 = a mod 32"
  by (cases "a = 0") (simp_all add: js_rem_def)

lemma js_rem_neg: "a < 0 \<Longrightarrow> js_rem a 32 = - ((- a) mod 32)"
  by (simp add: js_rem_def)

lemma js_rem_range: "- 32 < js_rem a 32 \<and> js_rem a 32 < 32"
proof (cases "0 \<le> a")
  case True
  then show ?thesis by (simp add: js_rem_pos)
next
  case False
  then have "a < 0" by simp
  moreover have "0 \<le> (- a) mod 32 \<and> (- a) mod 32 < 32" by simp
  ultimately show ?thesis by (simp add: js_rem_neg)
qed

lemma js_rem_cong: "js_rem a 32 mod 32 = a mod 32"
proof (cases "0 \<le> a")
  case True
  then show ?thesis by (simp add: js_rem_pos)
next
  case False
  then have "a < 0" by simp
  then have "js_rem a 32 = - ((- a) mod 32)" by (rule js_rem_neg)
  then show ?thesis by (simp add: mod_minus_eq)
qed

lemma local_coord_mod: "local_coord w = \<lfloor>w\<rfloor> mod 32"
proof -
  let ?r = "js_rem \<lfloor>w\<rfloor> 32"
  have "0 \<le> ?r + 32" using js_rem_range [of "\<lfloor>w\<rfloor>"] by simp
  then have "js_rem (?r + 32) 32 = (?r + 32) mod 32" by (rule js_rem_pos)
  also have "\<dots> = ?r mod 32" by simp
  also have "\<dots> = \<lfloor>w\<rfloor> mod 32" by (rule js_rem_cong)
  finally show ?thesis by (simp add: local_coord_def)
qed

lemma local_coord_range: "nat (local_coord w) < CHUNK_SIZE"
  by (simp add: local_coord_mod)

text \<open>
  C5. For every integer world coordinate \<open>wx\<close>, the chunk coordinate and the local
  coordinate that \<open>getTile\<close> and \<open>setTile\<close> compute reconstruct it:
  \<open>cx * CHUNK_SIZE + lx = wx\<close>. This includes negative values; \<open>wx = -1\<close> resolves to
  chunk \<open>-1\<close>, local \<open>31\<close>.
\<close>

theorem coord_roundtrip:
  "chunk_coord (of_int wx) * int CHUNK_SIZE + local_coord (of_int wx) = wx
   \<and> chunk_coord (- 1) = - 1 \<and> local_coord (- 1) = 31"
proof -
  have "\<lfloor>- 1 :: rat\<rfloor> = - 1"
    using floor_of_int [of "- 1", where ?'a = rat] by simp
  then show ?thesis by (simp add: chunk_coord_div local_coord_mod)
qed

subsection \<open>Solid tiles\<close>

text \<open>
  C8. \<open>tileSolid\<close> is false exactly on \<open>AIR\<close> and \<open>LEAVES\<close> and true on the six other
  tile kinds.
\<close>

theorem tileSolid_table:
  "\<not> tileSolid AIR \<and> \<not> tileSolid LEAVES \<and> tileSolid GRASS \<and> tileSolid DIRT
   \<and> tileSolid STONE \<and> tileSolid COAL \<and> tileSolid COPPER \<and> tileSolid WOOD
   \<and> tileSolid t = (t \<noteq> AIR \<and> t \<noteq> LEAVES)"
  by (simp add: tileSolid_def)

subsection \<open>Invariants of the generator\<close>

text \<open>
  Every tile the generator writes goes through \<open>put\<close>, so a property of grids that
  \<open>put\<close> keeps for every value other than \<open>COPPER\<close> is kept by each pass,
  provided the pass never writes \<open>COPPER\<close>.
\<close>

lemma fold_inv:
  assumes "P s" and "\<And>x s. P s \<Longrightarrow> P (f x s)"
  shows "P (fold f xs s)"
  using assms(1) by (induction xs arbitrary: s) (simp_all add: assms(2))

lemma funpow_inv:
  assumes "P s" and "\<And>s. P s \<Longrightarrow> P (f s)"
  shows "P ((f ^^ n) s)"
  by (induction n) (simp_all add: assms)

lemma column_tile_not_copper: "column_tile s y \<noteq> COPPER"
  by (simp add: column_tile_def)

lemma heightmap_column_inv:
  assumes pc: "\<And>ts y x v. v \<noteq> COPPER \<Longrightarrow> P ts \<Longrightarrow> P (put ts y x v)"
    and "P (snd st)"
  shows "P (snd (heightmap_column hb cx cy x st))"
proof -
  obtain a ts where st: "st = (a, ts)" by (cases st)
  have "P (fold (\<lambda>y t. put t y x (column_tile (surface_of hb cx cy x a) (int y))) [0..<CHUNK_SIZE] ts)"
  proof (rule fold_inv)
    show "P ts" using assms(2) st by simp
  next
    fix y t assume "P t"
    then show "P (put t y x (column_tile (surface_of hb cx cy x a) (int y)))"
      by (rule pc [OF column_tile_not_copper])
  qed
  then show ?thesis by (simp add: heightmap_column_def st)
qed

lemma heightmap_inv:
  assumes pc: "\<And>ts y x v. v \<noteq> COPPER \<Longrightarrow> P ts \<Longrightarrow> P (put ts y x v)"
    and "P (snd st)"
  shows "P (snd (heightmap hb cx cy st))"
  unfolding heightmap_def
  by (rule fold_inv [where P = "\<lambda>s. P (snd s)"]) (simp_all add: assms heightmap_column_inv)

lemma carve_disc_inv:
  assumes pc: "\<And>ts y x v. v \<noteq> COPPER \<Longrightarrow> P ts \<Longrightarrow> P (put ts y x v)"
    and "P ts"
  shows "P (carve_disc tx ty r ts)"
  unfolding carve_disc_def
proof (rule fold_inv [where P = P])
  show "P ts" by (rule assms(2))
next
  fix ox :: int and t assume "P t"
  then show "P (fold (\<lambda>oy t. let nx = tx + ox; ny = ty + oy
             in if nx \<ge> 0 \<and> nx < int CHUNK_SIZE \<and> ny \<ge> 0 \<and> ny < int CHUNK_SIZE
                then (if hypot_le ox oy r then put t (nat ny) (nat nx) AIR else t)
                else t) [- r..r] t)"
    by (rule fold_inv [where P = P]) (simp add: pc Let_def)
qed

lemma walk_step_inv:
  assumes pc: "\<And>ts y x v. v \<noteq> COPPER \<Longrightarrow> P ts \<Longrightarrow> P (put ts y x v)"
    and "P (fst (snd st))"
  shows "P (fst (snd (walk_step st)))"
proof -
  obtain a ts tx ty where st: "st = (a, ts, tx, ty)" by (cases st) auto
  then have "P ts" using assms(2) by simp
  have "P (carve_disc tx ty r ts)" for r
    using pc \<open>P ts\<close> by (rule carve_disc_inv [where P = P])
  then show ?thesis by (simp add: walk_step_def st Let_def split: prod.splits)
qed

lemma drill_inv:
  assumes pc: "\<And>ts y x v. v \<noteq> COPPER \<Longrightarrow> P ts \<Longrightarrow> P (put ts y x v)"
    and "P ts"
  shows "P (drill ts tx y)"
  using assms(2) by (induction y arbitrary: ts) (simp_all add: pc)


lemma tunnel_inv:
  assumes pc: "\<And>ts y x v. v \<noteq> COPPER \<Longrightarrow> P ts \<Longrightarrow> P (put ts y x v)"
    and "P (snd st)"
  shows "P (snd (tunnel st))"
proof -
  obtain a ts where st: "st = (a, ts)" by (cases st)
  have w: "P (fst (snd ((walk_step ^^ n) (b, ts, tx, ty))))" for n b tx ty
  proof (rule funpow_inv [where P = "\<lambda>s. P (fst (snd s))"])
    show "P (fst (snd (b, ts, tx, ty)))" using assms(2) st by simp
  next
    fix s :: "rng \<times> grid \<times> int \<times> int" assume "P (fst (snd s))"
    with pc show "P (fst (snd (walk_step s)))" by (rule walk_step_inv [where P = P])
  qed
  have d: "P (drill (fst (snd ((walk_step ^^ n) (b, ts, tx, ty)))) i j)" for n b tx ty i j
    using pc w by (rule drill_inv [where P = P])
  show ?thesis
    unfolding tunnel_def st Let_def
    apply (simp split: prod.splits)
    apply (intro allI impI conjI)
     apply (metis d fst_conv snd_conv)
    apply (metis w fst_conv snd_conv)
    done
qed

lemma caves_inv:
  assumes pc: "\<And>ts y x v. v \<noteq> COPPER \<Longrightarrow> P ts \<Longrightarrow> P (put ts y x v)"
    and "P (snd st)"
  shows "P (snd (caves st))"
proof -
  obtain a ts where st: "st = (a, ts)" by (cases st)
  have t: "P (snd ((tunnel ^^ n) (b, ts)))" for n b
  proof (rule funpow_inv [where P = "\<lambda>s. P (snd s)"])
    show "P (snd (b, ts))" using assms(2) st by simp
  next
    fix s :: "rng \<times> grid" assume "P (snd s)"
    with pc show "P (snd (tunnel s))" by (rule tunnel_inv [where P = P])
  qed
  show ?thesis
    using t assms(2) by (simp add: caves_def st Let_def split: prod.splits)
qed

lemma ore_cell_inv:
  assumes pc: "\<And>ts y x v. v \<noteq> COPPER \<Longrightarrow> P ts \<Longrightarrow> P (put ts y x v)"
    and "P (snd st)"
  shows "P (snd (ore_cell x y st))"
proof -
  obtain a ts where st: "st = (a, ts)" by (cases st)
  then have "P ts" using assms(2) by simp
  then show ?thesis
    by (auto simp: ore_cell_def st Let_def pc split: prod.splits)
qed

lemma ores_inv:
  assumes pc: "\<And>ts y x v. v \<noteq> COPPER \<Longrightarrow> P ts \<Longrightarrow> P (put ts y x v)"
    and "P (snd st)"
  shows "P (snd (ores st))"
  unfolding ores_def
proof (rule fold_inv [where P = "\<lambda>s. P (snd s)"])
  show "P (snd st)" by (rule assms(2))
next
  fix x and s :: "rng \<times> grid" assume "P (snd s)"
  then show "P (snd (fold (\<lambda>y. ore_cell x y) [0..<CHUNK_SIZE] s))"
  proof (rule fold_inv [where P = "\<lambda>s. P (snd s)"])
    fix y and s' :: "rng \<times> grid" assume "P (snd s')"
    with pc show "P (snd (ore_cell x y s'))" by (rule ore_cell_inv [where P = P])
  qed
qed

lemma leaves_blob_inv:
  assumes pc: "\<And>ts y x v. v \<noteq> COPPER \<Longrightarrow> P ts \<Longrightarrow> P (put ts y x v)"
    and "P ts"
  shows "P (leaves_blob x topY ts)"
  unfolding leaves_blob_def
proof (rule fold_inv [where P = P])
  show "P ts" by (rule assms(2))
next
  fix lx :: int and t assume "P t"
  then show "P (fold (\<lambda>(ly::int) t.
             let nx = x + lx; ny = topY + ly
             in if nx \<ge> 0 \<and> nx < int CHUNK_SIZE \<and> ny \<ge> 0 \<and> ny < int CHUNK_SIZE
                then (if \<bar>lx\<bar> + \<bar>ly\<bar> < (4::int) \<and> t ! nat ny ! nat nx = AIR
                      then put t (nat ny) (nat nx) LEAVES else t)
                else t) [- 2..(1::int)] t)"
    by (rule fold_inv [where P = P]) (simp add: pc Let_def)
qed

lemma grow_trunk_inv:
  assumes pc: "\<And>ts y x v. v \<noteq> COPPER \<Longrightarrow> P ts \<Longrightarrow> P (put ts y x v)"
    and "P ts"
  shows "P (grow_trunk x y trunk ts)"
  unfolding grow_trunk_def
  by (rule fold_inv [where P = P]) (simp_all add: assms)

lemma tree_column_inv:
  assumes pc: "\<And>ts y x v. v \<noteq> COPPER \<Longrightarrow> P ts \<Longrightarrow> P (put ts y x v)"
    and "P (snd st)"
  shows "P (snd (tree_column x st))"
proof -
  obtain a ts where st: "st = (a, ts)" by (cases st)
  then have "P ts" using assms(2) by simp
  have "P (leaves_blob i j (grow_trunk x y trunk ts))" for i j y trunk
  proof (rule leaves_blob_inv [where P = P])
    show "P (grow_trunk x y trunk ts)" using pc \<open>P ts\<close> by (rule grow_trunk_inv [where P = P])
  qed (rule pc)
  then show ?thesis
    using \<open>P ts\<close> by (simp add: tree_column_def st Let_def split: prod.splits option.splits)
qed

lemma trees_inv:
  assumes pc: "\<And>ts y x v. v \<noteq> COPPER \<Longrightarrow> P ts \<Longrightarrow> P (put ts y x v)"
    and "P (snd st)"
  shows "P (snd (trees st))"
  unfolding trees_def
proof (rule fold_inv [where P = "\<lambda>s. P (snd s)"])
  show "P (snd st)" by (rule assms(2))
next
  fix x and s :: "rng \<times> grid" assume "P (snd s)"
  with pc show "P (snd (tree_column x s))" by (rule tree_column_inv [where P = P])
qed

lemma generateChunk_inv:
  assumes pc: "\<And>ts y x v. v \<noteq> COPPER \<Longrightarrow> P ts \<Longrightarrow> P (put ts y x v)"
    and "P empty_grid"
  shows "P (tiles (generateChunk hb seed cx cy))"
proof -
  let ?st1 = "heightmap hb cx cy (rngFor seed cx cy, empty_grid)"
  have "P (snd (rngFor seed cx cy, empty_grid))" using assms(2) by simp
  with pc have "P (snd ?st1)" by (rule heightmap_inv [where P = P])
  with pc have "P (snd (caves ?st1))" by (rule caves_inv [where P = P])
  with pc have "P (snd (ores (caves ?st1)))" by (rule ores_inv [where P = P])
  with pc have "P (snd (trees (ores (caves ?st1))))" by (rule trees_inv [where P = P])
  then show ?thesis by (simp add: generateChunk_def Let_def)
qed

lemma put_grid_ok: "grid_ok ts \<Longrightarrow> grid_ok (put ts y x v)"
proof -
  assume ok: "grid_ok ts"
  show ?thesis
  proof (cases "y < length ts")
    case True
    then have "length (ts ! y) = CHUNK_SIZE"
      using ok by (simp add: grid_ok_def list_all_length)
    then show ?thesis
      using ok True by (auto simp: grid_ok_def list_all_length put_def nth_list_update)
  next
    case False
    then have "ts[y := (ts ! y)[x := v]] = ts" by (simp add: list_update_beyond)
    then show ?thesis using ok by (simp add: put_def)
  qed
qed

lemma empty_grid_ok: "grid_ok empty_grid"
  by (simp add: grid_ok_def empty_grid_def list_all_length)

lemma generateChunk_grid_ok: "grid_ok (tiles (generateChunk hb seed cx cy))"
  by (rule generateChunk_inv [where P = grid_ok]) (simp_all add: put_grid_ok empty_grid_ok)

lemma put_no_copper: "v \<noteq> COPPER \<Longrightarrow> no_copper ts \<Longrightarrow> no_copper (put ts y x v)"
proof -
  assume v: "v \<noteq> COPPER" and nc: "no_copper ts"
  show ?thesis
  proof (cases "y < length ts")
    case True
    have "set ((ts ! y)[x := v]) \<subseteq> insert v (set (ts ! y))" by (rule set_update_subset_insert)
    moreover have "set (ts ! y) \<subseteq> set (concat ts)"
      using nth_mem [OF True] by auto
    ultimately have r: "COPPER \<notin> set ((ts ! y)[x := v])"
      using v nc by (auto simp: no_copper_def)
    have "set (ts[y := (ts ! y)[x := v]]) \<subseteq> insert ((ts ! y)[x := v]) (set ts)"
      by (rule set_update_subset_insert)
    then show ?thesis using r nc by (auto simp: no_copper_def put_def)
  next
    case False
    then have "ts[y := (ts ! y)[x := v]] = ts" by (simp add: list_update_beyond)
    then show ?thesis using nc by (simp add: put_def)
  qed
qed

lemma empty_no_copper: "no_copper empty_grid"
  by (auto simp: no_copper_def empty_grid_def)

lemma ore_cell_result:
  "snd (ore_cell x y (a, ts)) =
     (if ts ! y ! x = STONE \<and> fst (rng a) < 2 / 100 then put ts y x COAL else ts)"
  by (simp add: ore_cell_def Let_def split: prod.splits)

text \<open>
  C9. No chunk returned by \<open>generateChunk\<close> contains a \<open>COPPER\<close> tile, whatever the
  seed and the chunk coordinates: in the ore pass the copper test \<open>r < 0.007\<close> is reached
  only when the same sample is already \<open>\<ge> 0.02\<close>, so a \<open>STONE\<close> cell becomes \<open>COAL\<close>
  when \<open>r < 0.02\<close> and is left as it is otherwise.
\<close>

theorem generateChunk_no_copper:
  "COPPER \<notin> set (concat (tiles (generateChunk hb seed cx cy)))
   \<and> snd (ore_cell x y (a, ts)) =
       (if ts ! y ! x = STONE \<and> fst (rng a) < 2 / 100 then put ts y x COAL else ts)"
proof -
  have "no_copper (tiles (generateChunk hb seed cx cy))"
    by (rule generateChunk_inv [where P = no_copper, OF put_no_copper empty_no_copper])
  then show ?thesis by (simp add: no_copper_def ore_cell_result)
qed

subsection \<open>The chunk store\<close>

lemma ensureChunk_fresh:
  "chunks g (ck cx cy) = None \<Longrightarrow>
   ensureChunk hb g cx cy =
     (generateChunk hb (SEED g) cx cy,
      g\<lparr>chunks := (chunks g)(ck cx cy \<mapsto> generateChunk hb (SEED g) cx cy)\<rparr>)"
  by (simp add: ensureChunk_def Let_def)

lemma ensureChunk_resident:
  "chunks g (ck cx cy) = Some c \<Longrightarrow> ensureChunk hb g cx cy = (c, g)"
  by (simp add: ensureChunk_def Let_def)

lemma ensureChunk_lookup:
  "chunks (snd (ensureChunk hb g cx cy)) (ck cx cy) = Some (fst (ensureChunk hb g cx cy))"
  by (simp add: ensureChunk_def Let_def split: option.splits)

lemma ensureChunk_keeps:
  "chunks g k = Some c \<Longrightarrow> chunks (snd (ensureChunk hb g cx cy)) k = Some c"
  by (auto simp: ensureChunk_def Let_def split: option.splits)

lemma ensureChunk_others:
  "player (snd (ensureChunk hb g cx cy)) = player g
   \<and> SEED (snd (ensureChunk hb g cx cy)) = SEED g
   \<and> keys (snd (ensureChunk hb g cx cy)) = keys g
   \<and> save_scheduled (snd (ensureChunk hb g cx cy)) = save_scheduled g"
  by (simp add: ensureChunk_def Let_def split: option.splits)

lemma wf_store_update:
  "wf_store g \<Longrightarrow> grid_ok (tiles c) \<Longrightarrow> wf_store (g\<lparr>chunks := (chunks g)(k \<mapsto> c)\<rparr>)"
  by (auto simp: wf_store_def ran_def split: if_splits)

lemma wf_store_lookup: "wf_store g \<Longrightarrow> chunks g k = Some c \<Longrightarrow> grid_ok (tiles c)"
  by (auto simp: wf_store_def ran_def)

lemma ensureChunk_wf:
  assumes "wf_store g"
  shows "wf_store (snd (ensureChunk hb g cx cy)) \<and> grid_ok (tiles (fst (ensureChunk hb g cx cy)))"
proof (cases "chunks g (ck cx cy)")
  case None
  then show ?thesis
    using assms by (simp add: ensureChunk_fresh wf_store_update generateChunk_grid_ok)
next
  case (Some c)
  then show ?thesis
    using assms by (simp add: ensureChunk_resident wf_store_lookup)
qed

lemma put_nth:
  assumes "grid_ok ts" "y < CHUNK_SIZE" "x < CHUNK_SIZE"
  shows "put ts y x v ! y ! x = v"
proof -
  have "length ts = CHUNK_SIZE" "length (ts ! y) = CHUNK_SIZE"
    using assms by (simp_all add: grid_ok_def list_all_length)
  then show ?thesis using assms by (simp add: put_def)
qed

lemma getTile_setTile:
  assumes "wf_store g"
  shows "fst (getTile hb (setTile hb g wx wy v) wx wy) = v"
proof -
  let ?cx = "chunk_coord wx" and ?cy = "chunk_coord wy"
  obtain c g1 where e: "ensureChunk hb g ?cx ?cy = (c, g1)" by (cases "ensureChunk hb g ?cx ?cy")
  have ok: "grid_ok (tiles c)" using ensureChunk_wf [OF assms, of hb ?cx ?cy] e by simp
  let ?c2 = "c\<lparr>tiles := put (tiles c) (nat (local_coord wy)) (nat (local_coord wx)) v, modified := True\<rparr>"
  have s: "chunks (setTile hb g wx wy v) (ck ?cx ?cy) = Some ?c2"
    by (simp add: setTile_def Let_def e scheduleWorldSave_def)
  show ?thesis
    using put_nth [OF ok local_coord_range local_coord_range, of wy wx v]
    by (simp add: getTile_def Let_def ensureChunk_resident [OF s])
qed


lemma setTile_chunk:
  "chunks (setTile hb g wx wy v) (ck (chunk_coord wx) (chunk_coord wy)) =
     Some ((fst (ensureChunk hb g (chunk_coord wx) (chunk_coord wy)))
             \<lparr>tiles := put (tiles (fst (ensureChunk hb g (chunk_coord wx) (chunk_coord wy))))
                         (nat (local_coord wy)) (nat (local_coord wx)) v,
              modified := True\<rparr>)"
  by (simp add: setTile_def Let_def scheduleWorldSave_def case_prod_beta)

lemma setTile_wf:
  assumes "wf_store g"
  shows "wf_store (setTile hb g wx wy v)"
proof -
  let ?cx = "chunk_coord wx" and ?cy = "chunk_coord wy"
  obtain c g1 where e: "ensureChunk hb g ?cx ?cy = (c, g1)" by (cases "ensureChunk hb g ?cx ?cy")
  have "wf_store g1" "grid_ok (tiles c)"
    using ensureChunk_wf [OF assms, of hb ?cx ?cy] e by simp_all
  then have "wf_store (g1\<lparr>chunks := (chunks g1)(ck ?cx ?cy \<mapsto>
      c\<lparr>tiles := put (tiles c) (nat (local_coord wy)) (nat (local_coord wx)) v, modified := True\<rparr>)\<rparr>)"
    by (intro wf_store_update) (simp_all add: put_grid_ok)
  then show ?thesis
    by (simp add: setTile_def Let_def e scheduleWorldSave_def wf_store_def)
qed

lemma setTile_player: "player (setTile hb g wx wy v) = player g"
  by (simp add: setTile_def Let_def scheduleWorldSave_def case_prod_beta ensureChunk_others)

text \<open>
  C7. In a store whose chunks are \<open>CHUNK_SIZE\<close> by \<open>CHUNK_SIZE\<close> grids (the empty store
  is one, and \<open>ensureChunk\<close> and \<open>setTile\<close> keep it so), \<open>setTile(wx, wy, v)\<close> followed
  by \<open>getTile(wx, wy)\<close> returns \<open>v\<close>, for every world coordinate and every tile value,
  \<open>AIR\<close> included; the owning chunk is marked modified and a save is scheduled.
\<close>

theorem setTile_then_getTile:
  assumes "wf_store g"
  shows "fst (getTile hb (setTile hb g wx wy v) wx wy) = v
         \<and> map_option modified
             (chunks (setTile hb g wx wy v) (ck (chunk_coord wx) (chunk_coord wy))) = Some True
         \<and> save_scheduled (setTile hb g wx wy v)"
  using getTile_setTile [OF assms]
  by (simp add: setTile_chunk) (simp add: setTile_def Let_def scheduleWorldSave_def case_prod_beta)

lemma game0_wf: "wf_store game0"
  by (simp add: wf_store_def game0_def)

theorem setTile_then_getTile_witness:
  "wf_store game0
   \<and> fst (getTile hb_flat (setTile hb_flat game0 5 16 AIR) 5 16) = AIR
   \<and> map_option modified
       (chunks (setTile hb_flat game0 5 16 AIR) (ck (chunk_coord 5) (chunk_coord 16))) = Some True
   \<and> save_scheduled (setTile hb_flat game0 5 16 AIR)"
  using setTile_then_getTile [OF game0_wf, of hb_flat 5 16 AIR] game0_wf by simp

subsection \<open>Streaming\<close>

lemma ensureChunk_dom:
  "dom (chunks (snd (ensureChunk hb g cx cy))) = insert (ck cx cy) (dom (chunks g))"
  by (auto simp: ensureChunk_def Let_def split: option.splits)

lemma ensure_row_dom:
  "dom (chunks (fold (\<lambda>(ox::int) g1. snd (ensureChunk hb g1 (pcx + ox) cy)) xs g)) =
     dom (chunks g) \<union> (\<lambda>ox. ck (pcx + ox) cy) ` set xs"
  by (induction xs arbitrary: g) (auto simp: ensureChunk_dom)

lemma ensure_rows_dom:
  "dom (chunks (fold (\<lambda>oy::int. fold (\<lambda>(ox::int) g1. snd (ensureChunk hb g1 (pcx + ox) (pcy + oy))) xs) ys g)) =
     dom (chunks g) \<union> (\<Union>oy \<in> set ys. (\<lambda>ox. ck (pcx + ox) (pcy + oy)) ` set xs)"
  by (induction ys arbitrary: g) (auto simp: ensure_row_dom)

lemma ensure_row_id:
  "(\<lambda>ox. ck (pcx + ox) cy) ` set xs \<subseteq> dom (chunks g) \<Longrightarrow>
   fold (\<lambda>(ox::int) g1. snd (ensureChunk hb g1 (pcx + ox) cy)) xs g = g"
  by (induction xs) (auto simp: ensureChunk_resident)

lemma ensure_rows_id:
  "(\<Union>oy \<in> set ys. (\<lambda>ox. ck (pcx + ox) (pcy + oy)) ` set xs) \<subseteq> dom (chunks g) \<Longrightarrow>
   fold (\<lambda>oy::int. fold (\<lambda>(ox::int) g1. snd (ensureChunk hb g1 (pcx + ox) (pcy + oy))) xs) ys g = g"
  by (induction ys) (auto simp: ensure_row_id)

lemma ensure_rows_player:
  "player (fold (\<lambda>oy::int. fold (\<lambda>(ox::int) g1. snd (ensureChunk hb g1 (pcx + ox) (pcy + oy))) xs) ys g) = player g"
proof (rule fold_inv [where P = "\<lambda>s. player s = player g"])
  fix oy :: int and s :: game assume "player s = player g"
  then show "player (fold (\<lambda>(ox::int) g1. snd (ensureChunk hb g1 (pcx + ox) (pcy + oy))) xs s) = player g"
    by (rule fold_inv [where P = "\<lambda>s. player s = player g"]) (simp add: ensureChunk_others)
qed simp

lemma stream_unfold:
  "streamChunksAroundPlayer hb g =
     fold (\<lambda>oy::int. fold (\<lambda>(ox::int) g1.
             snd (ensureChunk hb g1 (\<lfloor>px (player g) / 32\<rfloor> + ox) (\<lfloor>py (player g) / 32\<rfloor> + oy)))
           [- 2..2]) [- 2..2] g"
  unfolding streamChunksAroundPlayer_def Let_def of_nat_numeral ..

lemma stream_player: "player (streamChunksAroundPlayer hb g) = player g"
  unfolding stream_unfold by (rule ensure_rows_player)

lemma window_set:
  "(\<Union>oy \<in> B. (\<lambda>ox. f ox oy) ` A) = (\<lambda>(ox, oy). f ox oy) ` (A \<times> B)"
  by auto

lemma stream_dom:
  "dom (chunks (streamChunksAroundPlayer hb g)) =
     dom (chunks g) \<union>
     (\<lambda>(ox, oy). ck (\<lfloor>px (player g) / 32\<rfloor> + ox) (\<lfloor>py (player g) / 32\<rfloor> + oy))
       ` ({- 2..2} \<times> {- 2..2})"
  unfolding stream_unfold ensure_rows_dom window_set set_upto ..

lemma stream_idem:
  "streamChunksAroundPlayer hb (streamChunksAroundPlayer hb g) = streamChunksAroundPlayer hb g"
proof -
  let ?g = "streamChunksAroundPlayer hb g"
  let ?pcx = "\<lfloor>px (player g) / 32\<rfloor>" and ?pcy = "\<lfloor>py (player g) / 32\<rfloor>"
  have "(\<Union>oy \<in> set [- 2..2]. (\<lambda>ox. ck (?pcx + ox) (?pcy + oy)) ` set [- 2..2])
          \<subseteq> dom (chunks ?g)"
    unfolding stream_dom window_set set_upto by (rule Un_upper2)
  then have "fold (\<lambda>oy::int. fold (\<lambda>(ox::int) g1. snd (ensureChunk hb g1 (?pcx + ox) (?pcy + oy)))
               [- 2..2]) [- 2..2] ?g = ?g"
    by (rule ensure_rows_id)
  then show ?thesis
    unfolding stream_unfold [of hb ?g] stream_player .
qed

lemma atLeastAtMost_m2_2: "{- 2..(2::int)} = {- 2, - 1, 0, 1, 2}"
  by auto

lemma window_keys: "(\<lambda>(cx, cy). ck cx cy) ` ({- 2..2} \<times> {- 2..2}) = 
  {''-2,-2'', ''-1,-2'', ''0,-2'', ''1,-2'', ''2,-2'',
   ''-2,-1'', ''-1,-1'', ''0,-1'', ''1,-1'', ''2,-1'',
   ''-2,0'', ''-1,0'', ''0,0'', ''1,0'', ''2,0'',
   ''-2,1'', ''-1,1'', ''0,1'', ''1,1'', ''2,1'',
   ''-2,2'', ''-1,2'', ''0,2'', ''1,2'', ''2,2''}"
  unfolding atLeastAtMost_m2_2
  by (simp add: key_simps insert_commute)

lemma card_window: "card ((\<lambda>(cx, cy). ck cx cy) ` ({- 2..2} \<times> {- 2..2})) = 25"
  unfolding window_keys by simp

text \<open>
  C6. From an empty chunk store, streaming at a player position whose chunk coordinate is
  \<open>(0, 0)\<close> leaves exactly the chunks at Chebyshev distance at most \<open>VISIBLE_RANGE = 2\<close>
  from \<open>(0, 0)\<close> resident, 25 of them, and streaming again at the same position changes
  nothing.
\<close>

theorem stream_window:
  assumes "chunks g = Map.empty"
    and "\<lfloor>px (player g) / of_nat CHUNK_SIZE\<rfloor> = 0" and "\<lfloor>py (player g) / of_nat CHUNK_SIZE\<rfloor> = 0"
  shows "dom (chunks (streamChunksAroundPlayer hb g)) =
           (\<lambda>(cx, cy). ck cx cy) ` ({- VISIBLE_RANGE..VISIBLE_RANGE} \<times> {- VISIBLE_RANGE..VISIBLE_RANGE})
         \<and> card (dom (chunks (streamChunksAroundPlayer hb g))) = 25
         \<and> streamChunksAroundPlayer hb (streamChunksAroundPlayer hb g) = streamChunksAroundPlayer hb g"
proof -
  have d: "dom (chunks (streamChunksAroundPlayer hb g)) =
           (\<lambda>(cx, cy). ck cx cy) ` ({- 2..2} \<times> {- 2..2})"
    using assms by (simp add: stream_dom)
  show ?thesis using d card_window stream_idem by simp
qed

theorem stream_window_witness:
  "chunks (game0\<lparr>player := player0\<lparr>px := 10\<rparr>\<rparr>) = Map.empty
   \<and> \<lfloor>px (player (game0\<lparr>player := player0\<lparr>px := 10\<rparr>\<rparr>)) / of_nat CHUNK_SIZE\<rfloor> = 0
   \<and> \<lfloor>py (player (game0\<lparr>player := player0\<lparr>px := 10\<rparr>\<rparr>)) / of_nat CHUNK_SIZE\<rfloor> = 0
   \<and> card (dom (chunks (streamChunksAroundPlayer hb_flat (game0\<lparr>player := player0\<lparr>px := 10\<rparr>\<rparr>)))) = 25
   \<and> streamChunksAroundPlayer hb_flat
         (streamChunksAroundPlayer hb_flat (game0\<lparr>player := player0\<lparr>px := 10\<rparr>\<rparr>)) =
       streamChunksAroundPlayer hb_flat (game0\<lparr>player := player0\<lparr>px := 10\<rparr>\<rparr>)"
proof -
  let ?g = "game0\<lparr>player := player0\<lparr>px := 10\<rparr>\<rparr>"
  have a: "chunks ?g = Map.empty" by (simp add: game0_def)
  have b: "\<lfloor>px (player ?g) / of_nat CHUNK_SIZE\<rfloor> = 0" by (simp add: game0_def)
  have c: "\<lfloor>py (player ?g) / of_nat CHUNK_SIZE\<rfloor> = 0" by (simp add: game0_def player0_def)
  from stream_window [OF a b c, of hb_flat] a b c show ?thesis by blast
qed

subsection \<open>Mining\<close>

lemma getTile_snd:
  "snd (getTile hb g wx wy) = snd (ensureChunk hb g (chunk_coord wx) (chunk_coord wy))"
  by (simp add: getTile_def Let_def case_prod_beta)

lemma getTile_others:
  "player (snd (getTile hb g wx wy)) = player g
   \<and> SEED (snd (getTile hb g wx wy)) = SEED g
   \<and> keys (snd (getTile hb g wx wy)) = keys g
   \<and> save_scheduled (snd (getTile hb g wx wy)) = save_scheduled g"
  by (simp add: getTile_snd ensureChunk_others)

lemma getTile_wf: "wf_store g \<Longrightarrow> wf_store (snd (getTile hb g wx wy))"
  by (simp add: getTile_snd ensureChunk_wf)

lemma add_inventory_getTile:
  "getTile hb (add_inventory g item) wx wy =
     (fst (getTile hb g wx wy), add_inventory (snd (getTile hb g wx wy)) item)"
  by (simp add: getTile_def ensureChunk_def add_inventory_def Let_def split: option.splits)

text \<open>
  C4. While the mouse is down, let \<open>t\<close> be the tile read under the pointer. If \<open>t\<close> is
  solid the tile is \<open>AIR\<close> afterwards. The inventory receives exactly one unit of the
  resource the table gives for \<open>t\<close>, and is unchanged for \<open>AIR\<close> and \<open>LEAVES\<close>. On an
  \<open>AIR\<close> tile the tick does nothing beyond the read itself (which generates the chunk if it
  was not resident): no tile is written, no chunk is marked, no save is scheduled.
\<close>

theorem tickMining_effect:
  assumes "wf_store g" and "mouse_down g" and "pointer_tile g = (wx, wy)"
    and "fst (getTile hb g (of_int wx) (of_int wy)) = t"
  shows "(tileSolid t \<longrightarrow> fst (getTile hb (tickMining hb g) (of_int wx) (of_int wy)) = AIR)
         \<and> inventory (player (tickMining hb g)) =
             (case spec_resource t of
                None \<Rightarrow> inventory (player g)
              | Some item \<Rightarrow> add (inventory (player g)) item 1)
         \<and> (t = AIR \<longrightarrow>
               tickMining hb g = snd (ensureChunk hb g (chunk_coord (of_int wx)) (chunk_coord (of_int wy))))
         \<and> (t = AIR \<longrightarrow> chunks g (ck (chunk_coord (of_int wx)) (chunk_coord (of_int wy))) \<noteq> None
               \<longrightarrow> tickMining hb g = g)"
proof -
  let ?g1 = "snd (getTile hb g (of_int wx) (of_int wy))"
  let ?g2 = "setTile hb ?g1 (of_int wx) (of_int wy) AIR"
  have wf1: "wf_store ?g1" using assms(1) by (rule getTile_wf)
  have air: "fst (getTile hb ?g2 (of_int wx) (of_int wy)) = AIR"
    using wf1 by (rule getTile_setTile)
  have p2: "player ?g2 = player g" by (simp add: setTile_player getTile_others)
  have tm: "tickMining hb g =
     (if t \<noteq> AIR
      then (if t = WOOD then add_inventory ?g2 ''wood''
            else if t = COAL then add_inventory ?g2 ''coal''
            else if t = COPPER then add_inventory ?g2 ''copper''
            else if t = DIRT \<or> t = GRASS then add_inventory ?g2 ''dirt''
            else if t = STONE then add_inventory ?g2 ''stone''
            else ?g2)
      else ?g1)"
    using assms(2,3,4) by (simp add: tickMining_def Let_def case_prod_beta)
  have c1: "tileSolid t \<longrightarrow> fst (getTile hb (tickMining hb g) (of_int wx) (of_int wy)) = AIR"
    using air by (cases t) (simp_all add: tm tileSolid_def add_inventory_getTile)
  have c2: "inventory (player (tickMining hb g)) =
             (case spec_resource t of
                None \<Rightarrow> inventory (player g)
              | Some item \<Rightarrow> add (inventory (player g)) item 1)"
    by (cases t) (simp_all add: tm spec_resource_def add_inventory_def p2 getTile_others)
  have c3: "t = AIR \<longrightarrow> tickMining hb g = snd (ensureChunk hb g (chunk_coord (of_int wx)) (chunk_coord (of_int wy)))"
    by (simp add: tm getTile_snd)
  have c4: "t = AIR \<longrightarrow> chunks g (ck (chunk_coord (of_int wx)) (chunk_coord (of_int wy))) \<noteq> None
               \<longrightarrow> tickMining hb g = g"
    by (auto simp: tm getTile_snd ensureChunk_resident)
  show ?thesis using c1 c2 c3 c4 by blast
qed


lemma gallery_chunk_ok: "grid_ok (tiles gallery_chunk)"
  by (simp add: grid_ok_def gallery_chunk_def list_all_length)

lemma gallery_game_wf: "wf_store gallery_game"
  by (simp add: wf_store_def gallery_game_def gallery_chunk_ok)

lemma gallery_tile:
  "y < CHUNK_SIZE \<Longrightarrow> x < CHUNK_SIZE \<Longrightarrow> tiles gallery_chunk ! y ! x = gallery_cell y x"
  by (simp add: gallery_chunk_def)

theorem tickMining_effect_witness:
  "wf_store mining_game \<and> mouse_down mining_game \<and> pointer_tile mining_game = (7, 21)
   \<and> fst (getTile hb_flat mining_game 7 21) = STONE
   \<and> fst (getTile hb_flat (tickMining hb_flat mining_game) 7 21) = AIR
   \<and> inventory (player (tickMining hb_flat mining_game)) = [''stone'' \<mapsto> 1]"
proof -
  have a: "wf_store mining_game"
    using gallery_game_wf by (simp add: mining_game_def wf_store_def)
  have b: "mouse_down mining_game" by (simp add: mining_game_def)
  have c: "pointer_tile mining_game = (7, 21)"
    by (simp add: pointer_tile_def mining_game_def gallery_game_def player0_def game0_def Let_def)
  have r: "chunks mining_game (ck 0 0) = Some gallery_chunk"
    by (simp add: mining_game_def gallery_game_def)
  have d: "fst (getTile hb_flat mining_game (of_int 7) (of_int 21)) = STONE"
    by (simp add: getTile_def Let_def chunk_coord_div local_coord_mod ensureChunk_resident [OF r]
          gallery_tile gallery_cell_def column_tile_def)
  have i: "inventory (player mining_game) = Map.empty"
    by (simp add: mining_game_def gallery_game_def player0_def)
  show ?thesis
    using tickMining_effect [OF a b c d] a b c d
    by (simp add: tileSolid_def spec_resource_def i add_def)
qed

subsection \<open>The heightmap pass\<close>

lemma put_get:
  assumes "grid_ok ts" "y < CHUNK_SIZE" "x < CHUNK_SIZE" "y' < CHUNK_SIZE" "x' < CHUNK_SIZE"
  shows "put ts y x v ! y' ! x' = (if y' = y \<and> x' = x then v else ts ! y' ! x')"
proof -
  have "length ts = CHUNK_SIZE" "length (ts ! y) = CHUNK_SIZE"
    using assms by (simp_all add: grid_ok_def list_all_length)
  then show ?thesis using assms by (auto simp: put_def nth_list_update)
qed

lemma column_fill:
  assumes "grid_ok ts" "x < CHUNK_SIZE" "m \<le> CHUNK_SIZE"
  shows "grid_ok (fold (\<lambda>y t. put t y x (f y)) [0..<m] ts)
         \<and> (\<forall>y' < CHUNK_SIZE. \<forall>x' < CHUNK_SIZE.
              fold (\<lambda>y t. put t y x (f y)) [0..<m] ts ! y' ! x' =
                (if x' = x \<and> y' < m then f y' else ts ! y' ! x'))"
  using assms(3)
proof (induction m)
  case 0
  then show ?case using assms(1) by simp
next
  case (Suc m)
  let ?F = "fold (\<lambda>y t. put t y x (f y)) [0..<m] ts"
  have ih: "grid_ok ?F"
    "\<And>y' x'. y' < CHUNK_SIZE \<Longrightarrow> x' < CHUNK_SIZE \<Longrightarrow>
        ?F ! y' ! x' = (if x' = x \<and> y' < m then f y' else ts ! y' ! x')"
    using Suc by simp_all
  have m: "m < CHUNK_SIZE" using Suc.prems by simp
  have step: "fold (\<lambda>y t. put t y x (f y)) [0..<Suc m] ts = put ?F m x (f m)" by simp
  show ?case
    unfolding step
    using put_grid_ok [OF ih(1)] put_get [OF ih(1) m assms(2)] ih(2)
    by (auto simp: less_Suc_eq)
qed

lemma heightmap_prefix:
  assumes "grid_ok ts" "n \<le> CHUNK_SIZE"
  shows "fst (fold (heightmap_column hb cx cy) [0..<n] (a, ts)) = ((\<lambda>a. snd (rng a)) ^^ n) a
         \<and> grid_ok (snd (fold (heightmap_column hb cx cy) [0..<n] (a, ts)))
         \<and> (\<forall>y < CHUNK_SIZE. \<forall>x < CHUNK_SIZE.
               snd (fold (heightmap_column hb cx cy) [0..<n] (a, ts)) ! y ! x =
                 (if x < n
                  then column_tile (surface_of hb cx cy x (((\<lambda>a. snd (rng a)) ^^ x) a)) (int y)
                  else ts ! y ! x))"
  using assms(2)
proof (induction n)
  case 0
  then show ?case using assms(1) by simp
next
  case (Suc n)
  let ?st = "fold (heightmap_column hb cx cy) [0..<n] (a, ts)"
  let ?an = "((\<lambda>a. snd (rng a)) ^^ n) a"
  have n: "n < CHUNK_SIZE" using Suc.prems by simp
  have ih: "fst ?st = ?an" "grid_ok (snd ?st)"
    "\<And>y x. y < CHUNK_SIZE \<Longrightarrow> x < CHUNK_SIZE \<Longrightarrow>
        snd ?st ! y ! x =
          (if x < n then column_tile (surface_of hb cx cy x (((\<lambda>a. snd (rng a)) ^^ x) a)) (int y)
           else ts ! y ! x)"
    using Suc by simp_all
  let ?f = "\<lambda>y. column_tile (surface_of hb cx cy n ?an) (int y)"
  have step: "fold (heightmap_column hb cx cy) [0..<Suc n] (a, ts) =
      (snd (rng ?an), fold (\<lambda>y t. put t y n (?f y)) [0..<CHUNK_SIZE] (snd ?st))"
    using ih(1) by (simp add: heightmap_column_def Let_def case_prod_beta)
  have cf: "grid_ok (fold (\<lambda>y t. put t y n (?f y)) [0..<CHUNK_SIZE] (snd ?st))"
    "\<And>y' x'. y' < CHUNK_SIZE \<Longrightarrow> x' < CHUNK_SIZE \<Longrightarrow>
       fold (\<lambda>y t. put t y n (?f y)) [0..<CHUNK_SIZE] (snd ?st) ! y' ! x' =
         (if x' = n \<and> y' < CHUNK_SIZE then ?f y' else snd ?st ! y' ! x')"
    using column_fill [OF ih(2) n, of CHUNK_SIZE ?f] by simp_all
  show ?case
    unfolding step
    using cf ih(3) by (auto simp: less_Suc_eq)
qed

lemma surface_of_range:
  "4 \<le> surface_of hb cx cy x a \<and> surface_of hb cx cy x a \<le> int CHUNK_SIZE - 6"
  by (simp add: surface_of_def Let_def case_prod_beta)

lemma heightmap_tiles_cell:
  assumes "x < CHUNK_SIZE" "y < CHUNK_SIZE"
  shows "heightmap_tiles hb seed cx cy ! y ! x = column_tile (surface_row hb seed cx cy x) (int y)"
  using heightmap_prefix [OF empty_grid_ok, of CHUNK_SIZE hb cx cy "rngFor seed cx cy"] assms
  by (simp add: heightmap_tiles_def heightmap_def surface_row_def)

text \<open>
  C3, as the code has it. After the heightmap pass every column \<open>x\<close> has a surface row in
  \<open>[4, CHUNK_SIZE - 6]\<close>; the rows above it are \<open>AIR\<close>, the surface row is \<open>GRASS\<close>,
  the next three rows (\<open>surface + 1\<close> to \<open>surface + 3\<close>) are \<open>DIRT\<close>, and every row from
  \<open>surface + 4\<close> down is \<open>STONE\<close>.
\<close>

theorem heightmap_layers:
  assumes "x < CHUNK_SIZE" and "y < CHUNK_SIZE"
  shows "4 \<le> surface_row hb seed cx cy x \<and> surface_row hb seed cx cy x \<le> int CHUNK_SIZE - 6
         \<and> heightmap_tiles hb seed cx cy ! y ! x =
             (if int y < surface_row hb seed cx cy x then AIR
              else if int y = surface_row hb seed cx cy x then GRASS
              else if int y \<le> surface_row hb seed cx cy x + 3 then DIRT
              else STONE)"
  using surface_of_range [of hb cx cy x] heightmap_tiles_cell [OF assms]
  by (auto simp: surface_row_def column_tile_def)

lemma surface_row_origin: "surface_row hb_flat 42 0 0 0 = 16"
  by code_simp

theorem heightmap_layers_witness:
  "(0::nat) < CHUNK_SIZE \<and> (20::nat) < CHUNK_SIZE
   \<and> surface_row hb_flat 42 0 0 0 = 16 \<and> heightmap_tiles hb_flat 42 0 0 ! 20 ! 0 = STONE"
  using heightmap_layers [of 0 20 hb_flat 42 0 0] surface_row_origin by simp

text \<open>
  C3, as stated, asks for four rows of \<open>DIRT\<close> below the surface. In chunk \<open>(0, 0)\<close> of
  seed 42 the surface of column 0 is row 16 (there \<open>worldX = 0\<close> and \<open>cy = 0\<close>, so the sine
  term is zero), and the fourth row below it is not \<open>DIRT\<close>.
\<close>

theorem four_dirt_rows_counterexample:
  "surface_row hb_flat 42 0 0 0 = 16 \<and> heightmap_tiles hb_flat 42 0 0 ! (16 + 4) ! 0 \<noteq> DIRT"
  using heightmap_tiles_cell [of 0 20 hb_flat 42 0 0] surface_row_origin
  by (simp add: column_tile_def)

subsection \<open>The physics tick\<close>

lemma scan_cells_others:
  "player (snd (scan_cells hb g cs)) = player g \<and> keys (snd (scan_cells hb g cs)) = keys g"
proof (induction cs arbitrary: g)
  case Nil
  show ?case by simp
next
  case (Cons c cs)
  obtain tx ty where c: "c = (tx, ty)" by (cases c)
  show ?case
    using Cons [of "snd (getTile hb g (of_int tx) (of_int ty))"]
    by (simp add: c case_prod_beta Let_def getTile_others)
qed

lemma rectCollides_others:
  "player (snd (rectCollidesWithTiles hb g x y w h)) = player g
   \<and> keys (snd (rectCollidesWithTiles hb g x y w h)) = keys g"
  by (simp add: rectCollidesWithTiles_def scan_cells_others)

text \<open>
  C10. In the vertical branch of the tick, whenever the tentative vertical move collides,
  the velocity is zeroed and the snap \<open>y = floor(y + h) - h\<close> is applied, whatever the
  direction of motion, upward (\<open>vy < 0\<close> on entry) included: the guard \<open>vy >= 0\<close> is
  read after \<open>vy\<close> has been set to zero. The direction only shows in \<open>grounded\<close>, which
  is set when \<open>vy > 0\<close> on entry and left as it was otherwise.
\<close>

theorem vertical_collision_snap:
  assumes "fst (rectCollidesWithTiles hb g (px (player g)) ny (pw (player g)) (ph (player g)))"
  shows "player (vertical hb ny g) =
           (player g)\<lparr>py := of_int \<lfloor>py (player g) + ph (player g)\<rfloor> - ph (player g),
                       pvy := 0,
                       grounded := (pvy (player g) > 0 \<or> grounded (player g))\<rparr>"
  using assms by (simp add: vertical_def Let_def case_prod_beta rectCollides_others)

text \<open>Reads inside the resident gallery chunk.\<close>

lemma gallery_getTile:
  assumes "chunks g (ck 0 0) = Some gallery_chunk"
    and "0 \<le> tx" "tx < 32" "0 \<le> ty" "ty < 32"
  shows "getTile hb g (of_int tx) (of_int ty) = (gallery_cell (nat ty) (nat tx), g)"
proof -
  have "tx div 32 = 0" "ty div 32 = 0" "tx mod 32 = tx" "ty mod 32 = ty"
    using assms(2-5) by simp_all
  then show ?thesis
    using assms
    by (simp add: getTile_def Let_def chunk_coord_div local_coord_mod ensureChunk_resident
          gallery_tile)
qed

lemma gallery_scan:
  assumes "chunks g (ck 0 0) = Some gallery_chunk"
    and "list_all (\<lambda>(tx, ty). 0 \<le> tx \<and> tx < 32 \<and> 0 \<le> ty \<and> ty < 32) cs"
  shows "scan_cells hb g cs =
           (list_ex (\<lambda>(tx, ty). tileSolid (gallery_cell (nat ty) (nat tx))) cs, g)"
  using assms(2)
proof (induction cs)
  case Nil
  show ?case by simp
next
  case (Cons c cs)
  obtain tx ty where c: "c = (tx, ty)" by (cases c)
  have "getTile hb g (of_int tx) (of_int ty) = (gallery_cell (nat ty) (nat tx), g)"
    using Cons.prems c by (intro gallery_getTile [OF assms(1)]) simp_all
  then show ?case using Cons c by simp
qed

lemma gallery_rect:
  assumes "chunks g (ck 0 0) = Some gallery_chunk"
    and "list_all (\<lambda>(tx, ty). 0 \<le> tx \<and> tx < 32 \<and> 0 \<le> ty \<and> ty < 32) (rect_cells x y w h)"
  shows "rectCollidesWithTiles hb g x y w h =
           (list_ex (\<lambda>(tx, ty). tileSolid (gallery_cell (nat ty) (nat tx))) (rect_cells x y w h), g)"
  unfolding rectCollidesWithTiles_def using assms by (rule gallery_scan)


lemma gallery_collides:
  assumes "chunks g (ck 0 0) = Some gallery_chunk" and "in_chunk0 (rect_cells x y w h)"
  shows "rectCollidesWithTiles hb g x y w h = (gallery_hit (rect_cells x y w h), g)"
  using assms unfolding in_chunk0_def gallery_hit_def by (rule gallery_rect)

lemma stream_keeps:
  assumes "chunks g k = Some c"
  shows "chunks (streamChunksAroundPlayer hb g) k = Some c"
  unfolding stream_unfold
proof (rule fold_inv [where P = "\<lambda>s. chunks s k = Some c"])
  fix oy :: int and s :: game assume "chunks s k = Some c"
  then show "chunks (fold (\<lambda>(ox::int) g1. snd (ensureChunk hb g1
       (\<lfloor>px (player g) / 32\<rfloor> + ox) (\<lfloor>py (player g) / 32\<rfloor> + oy))) [- 2..2] s) k = Some c"
    by (rule fold_inv [where P = "\<lambda>s. chunks s k = Some c"]) (simp add: ensureChunk_keeps)
qed (rule assms)

lemma gallery_gameStep:
  assumes r: "chunks g (ck 0 0) = Some gallery_chunk"
    and g1: "g1 = gravity STEP (apply_input g)"
    and nx: "nx = px (player g1) + pvx (player g1) * STEP"
    and ny: "ny = py (player g1) + pvy (player g1) * STEP"
    and hin: "in_chunk0 (rect_cells nx (py (player g1)) (pw (player g1)) (ph (player g1)))"
    and hfree: "\<not> gallery_hit (rect_cells nx (py (player g1)) (pw (player g1)) (ph (player g1)))"
    and vin: "in_chunk0 (rect_cells nx ny (pw (player g1)) (ph (player g1)))"
  shows "\<exists>g'. gameStep hb STEP g = Some g' \<and> chunks g' (ck 0 0) = Some gallery_chunk
           \<and> player g' =
               (if gallery_hit (rect_cells nx ny (pw (player g1)) (ph (player g1)))
                then (player g1)\<lparr>px := nx,
                       py := of_int \<lfloor>py (player g1) + ph (player g1)\<rfloor> - ph (player g1),
                       pvy := 0, grounded := (pvy (player g1) > 0 \<or> grounded (player g1))\<rparr>
                else (player g1)\<lparr>px := nx, py := ny, grounded := False\<rparr>)"
proof -
  have r1: "chunks g1 (ck 0 0) = Some gallery_chunk"
    using r by (simp add: g1 gravity_def apply_input_def Let_def)
  let ?g2 = "g1\<lparr>player := (player g1)\<lparr>px := nx\<rparr>\<rparr>"
  have h: "horizontal hb nx g1 = Some ?g2"
    using hfree by (simp add: horizontal_def Let_def gallery_collides [OF r1 hin])
  have r2: "chunks ?g2 (ck 0 0) = Some gallery_chunk" using r1 by simp
  let ?g3 = "vertical hb ny ?g2"
  have v: "chunks ?g3 (ck 0 0) = Some gallery_chunk \<and> player ?g3 =
               (if gallery_hit (rect_cells nx ny (pw (player g1)) (ph (player g1)))
                then (player g1)\<lparr>px := nx,
                       py := of_int \<lfloor>py (player g1) + ph (player g1)\<rfloor> - ph (player g1),
                       pvy := 0, grounded := (pvy (player g1) > 0 \<or> grounded (player g1))\<rparr>
                else (player g1)\<lparr>px := nx, py := ny, grounded := False\<rparr>)"
    using r2 by (simp add: vertical_def Let_def gallery_collides [OF r2 vin])
  have "gameStep hb STEP g = Some (streamChunksAroundPlayer hb ?g3)"
    unfolding gameStep_def Let_def g1 [symmetric] nx [symmetric] ny [symmetric] h by simp
  then show ?thesis
    using v by (simp add: stream_keeps stream_player)
qed


lemma tick_jump:
  assumes "chunks g (ck 0 0) = Some gallery_chunk"
    and "player g = player gallery_game" and "keys g = {''w''}"
  shows "\<exists>g'. gameStep hb STEP g = Some g' \<and> chunks g' (ck 0 0) = Some gallery_chunk
           \<and> player g' = (player gallery_game)\<lparr>py := 529 / 24, pvy := - 19 / 2, grounded := False\<rparr>"
proof -
  let ?g1 = "gravity STEP (apply_input g)"
  have p1: "player ?g1 = (player gallery_game)\<lparr>pvy := - 19 / 2, grounded := False\<rparr>"
    using assms(2,3) by (simp add: gravity_def apply_input_def Let_def gallery_game_def player0_def)
  show ?thesis
    using gallery_gameStep [OF assms(1) refl refl refl, of hb]
    apply (simp add: p1 gallery_game_def player0_def rect_cells_def Let_def in_chunk0_def
        gallery_hit_def gallery_cell_def column_tile_def tileSolid_def)
    done
qed


lemma tick_ceiling:
  assumes "chunks g (ck 0 0) = Some gallery_chunk"
    and "player g = (player gallery_game)\<lparr>py := 529 / 24, pvy := - 19 / 2, grounded := False\<rparr>"
    and "keys g = {}"
  shows "\<exists>g'. gameStep hb STEP g = Some g' \<and> chunks g' (ck 0 0) = Some gallery_chunk
           \<and> player g' = (player gallery_game)\<lparr>py := 106 / 5, pvy := 0, grounded := False\<rparr>"
proof -
  let ?g1 = "gravity STEP (apply_input g)"
  have p1: "player ?g1 = (player gallery_game)\<lparr>py := 529 / 24, pvy := - 9, grounded := False\<rparr>"
    using assms(2,3) by (simp add: gravity_def apply_input_def Let_def gallery_game_def player0_def)
  show ?thesis
    using gallery_gameStep [OF assms(1) refl refl refl, of hb]
    by (simp add: p1 gallery_game_def player0_def rect_cells_def Let_def in_chunk0_def
        gallery_hit_def gallery_cell_def column_tile_def tileSolid_def)
qed

lemma gallery_overlaps:
  assumes "chunks g (ck 0 0) = Some gallery_chunk"
    and "in_chunk0 (rect_cells (px (player g)) (py (player g)) (pw (player g)) (ph (player g)))"
  shows "player_overlaps hb g =
           gallery_hit (rect_cells (px (player g)) (py (player g)) (pw (player g)) (ph (player g)))"
  by (simp add: player_overlaps_def gallery_collides [OF assms])

text \<open>
  C2. Collision containment fails. In the gallery the player stands on the stone of row 24,
  clear of every solid tile; the bounding box covers rows 22 and 23 of column 7. With the
  jump key down, the first tick moves the player up to \<open>y = 529 / 24\<close>; in the second
  tick the tentative move reaches row 21, the vertical branch snaps
  \<open>y\<close> to \<open>floor(y + h) - h = 21.2\<close>, and the box then overlaps the stone tile
  \<open>(7, 21)\<close>. Every comparison of the run is decided by a margin of more than \<open>0.03\<close>
  tiles, so rounding in double arithmetic does not change it.
\<close>

theorem jump_into_ceiling:
  "\<not> player_overlaps hb gallery_game
   \<and> tileSolid (fst (getTile hb gallery_game 7 24))
   \<and> (case run_ticks hb [{''w''}, {}] gallery_game of
         None \<Rightarrow> False
       | Some g \<Rightarrow> player_overlaps hb g \<and> py (player g) = 212 / 10)"
proof -
  have r0: "chunks gallery_game (ck 0 0) = Some gallery_chunk"
    by (simp add: gallery_game_def)
  have free: "\<not> player_overlaps hb gallery_game"
    using gallery_overlaps [OF r0, of hb]
    by (simp add: gallery_game_def player0_def rect_cells_def Let_def in_chunk0_def
        gallery_hit_def gallery_cell_def column_tile_def tileSolid_def)
  have ground: "tileSolid (fst (getTile hb gallery_game 7 24))"
    using gallery_getTile [OF r0, of 7 24 hb]
    by (simp add: gallery_cell_def column_tile_def tileSolid_def)
  obtain g1 where g1: "gameStep hb STEP (gallery_game\<lparr>keys := {''w''}\<rparr>) = Some g1"
      "chunks g1 (ck 0 0) = Some gallery_chunk"
      "player g1 = (player gallery_game)\<lparr>py := 529 / 24, pvy := - 19 / 2, grounded := False\<rparr>"
    using tick_jump [of "gallery_game\<lparr>keys := {''w''}\<rparr>" hb] r0 by auto
  obtain g2 where g2: "gameStep hb STEP (g1\<lparr>keys := {}\<rparr>) = Some g2"
      "chunks g2 (ck 0 0) = Some gallery_chunk"
      "player g2 = (player gallery_game)\<lparr>py := 106 / 5, pvy := 0, grounded := False\<rparr>"
    using tick_ceiling [of "g1\<lparr>keys := {}\<rparr>" hb] g1(2,3) by auto
  have run: "run_ticks hb [{''w''}, {}] gallery_game = Some g2"
    by (simp add: g1(1) g2(1))
  have hit: "player_overlaps hb g2"
    using gallery_overlaps [OF g2(2), of hb]
    by (simp add: g2(3) gallery_game_def player0_def rect_cells_def Let_def in_chunk0_def
        gallery_hit_def gallery_cell_def column_tile_def tileSolid_def)
  have "py (player g2) = 212 / 10" by (simp add: g2(3))
  then show ?thesis using free ground run hit by simp
qed

lemma jumping_resident: "chunks jumping_game (ck 0 0) = Some gallery_chunk"
  by (simp add: jumping_game_def gallery_game_def)

theorem vertical_collision_snap_witness:
  "fst (rectCollidesWithTiles hb_flat jumping_game (px (player jumping_game)) (2629 / 120)
          (pw (player jumping_game)) (ph (player jumping_game)))
   \<and> pvy (player jumping_game) < 0
   \<and> player (vertical hb_flat (2629 / 120) jumping_game) =
       (player jumping_game)\<lparr>py := 212 / 10, pvy := 0, grounded := False\<rparr>"
proof -
  have c: "fst (rectCollidesWithTiles hb_flat jumping_game (px (player jumping_game)) (2629 / 120)
          (pw (player jumping_game)) (ph (player jumping_game)))"
    using gallery_collides [OF jumping_resident, of "px (player jumping_game)" "2629 / 120"
        "pw (player jumping_game)" "ph (player jumping_game)" hb_flat]
    by (simp add: jumping_game_def gallery_game_def player0_def rect_cells_def Let_def in_chunk0_def
        gallery_hit_def gallery_cell_def column_tile_def tileSolid_def)
  show ?thesis
    using vertical_collision_snap [OF c] c
    by (simp add: jumping_game_def gallery_game_def player0_def)
qed

subsection \<open>Chunk keys are unique\<close>

lemma digit_char_val: "d < 10 \<Longrightarrow> (of_char (digit_char d) :: nat) - 48 = d"
proof -
  assume "d < 10"
  then have "d \<in> {0, 1, 2, 3, 4, 5, 6, 7, 8, 9}" by auto
  then show ?thesis by (auto simp: digit_char_def)
qed

lemma digit_char_range: "d < 10 \<Longrightarrow> digit_char d \<in> set ''0123456789''"
  unfolding digit_char_def by (rule nth_mem) simp

lemma dec_value_digits: "dec_value (dec_digits n) = n"
proof (induction n rule: dec_digits.induct)
  case (1 n)
  show ?case
  proof (cases "n < 10")
    case True
    then show ?thesis
      by (subst dec_digits.simps) (simp add: dec_value_def digit_char_val)
  next
    case False
    then have "dec_value (dec_digits (n div 10)) = n div 10" by (rule 1)
    then show ?thesis
      using False
      by (subst dec_digits.simps) (simp add: dec_value_def digit_char_val)
  qed
qed

lemma dec_digits_set: "set (dec_digits n) \<subseteq> set ''0123456789''"
proof (induction n rule: dec_digits.induct)
  case (1 n)
  show ?case
  proof (cases "n < 10")
    case True
    then show ?thesis
      using digit_char_range [of n] by (subst dec_digits.simps) simp
  next
    case False
    then have "set (dec_digits (n div 10)) \<subseteq> set ''0123456789''" by (rule 1)
    moreover have "digit_char (n mod 10) \<in> set ''0123456789''" by (rule digit_char_range) simp
    ultimately show ?thesis
      using False by (subst dec_digits.simps) simp
  qed
qed

lemma dec_digits_inj:
  assumes "dec_digits m = dec_digits n"
  shows "m = n"
proof -
  have "m = dec_value (dec_digits m)" by (simp only: dec_value_digits)
  also have "\<dots> = dec_value (dec_digits n)" by (simp only: assms)
  also have "\<dots> = n" by (simp only: dec_value_digits)
  finally show ?thesis .
qed

lemma dec_digits_nonempty: "dec_digits n \<noteq> []"
  by (subst dec_digits.simps) simp

lemma dec_digits_no_minus: "hd (dec_digits n) \<noteq> CHR ''-''"
proof -
  have "hd (dec_digits n) \<in> set (dec_digits n)" using dec_digits_nonempty by (rule hd_in_set)
  then have "hd (dec_digits n) \<in> set ''0123456789''" using dec_digits_set by blast
  then show ?thesis by auto
qed

lemma num_str_inj: "num_str i = num_str j \<Longrightarrow> i = j"
proof -
  assume e: "num_str i = num_str j"
  have neg: "k < 0 \<Longrightarrow> hd (num_str k) = CHR ''-''" for k by (simp add: num_str_def)
  have pos: "\<not> k < 0 \<Longrightarrow> hd (num_str k) \<noteq> CHR ''-''" for k
    by (simp add: num_str_def dec_digits_no_minus)
  have s: "i < 0 \<longleftrightarrow> j < 0" using neg [of i] neg [of j] pos [of i] pos [of j] e by auto
  show ?thesis
  proof (cases "i < 0")
    case True
    then have "dec_digits (nat (- i)) = dec_digits (nat (- j))"
      using e s by (simp add: num_str_def)
    then have "nat (- i) = nat (- j)" by (rule dec_digits_inj)
    then show ?thesis using True s by simp
  next
    case False
    then have "dec_digits (nat i) = dec_digits (nat j)"
      using e s by (simp add: num_str_def)
    then have "nat i = nat j" by (rule dec_digits_inj)
    then show ?thesis using False s by simp
  qed
qed

lemma num_str_no_comma: "CHR '','' \<notin> set (num_str i)"
proof -
  have "CHR '','' \<notin> set (dec_digits n)" for n using dec_digits_set [of n] by auto
  then show ?thesis by (simp add: num_str_def)
qed

lemma ck_inj: "ck cx cy = ck cx' cy' \<Longrightarrow> cx = cx' \<and> cy = cy'"
proof -
  assume "ck cx cy = ck cx' cy'"
  then have "num_str cx @ CHR '','' # num_str cy = num_str cx' @ CHR '','' # num_str cy'"
    by (simp add: ck_def)
  then have "num_str cx = num_str cx' \<and> num_str cy = num_str cy'"
    using num_str_no_comma by (simp add: append_Cons_eq_iff)
  then show ?thesis by (simp add: num_str_inj)
qed

subsection \<open>Every tick returns\<close>

text \<open>
  Generating a chunk never changes what \<open>getTile\<close> returns anywhere, so a collision
  test gives the same answer before and after the store has grown. With \<open>dt = 1/60\<close>
  the horizontal velocity is \<open>-6\<close>, \<open>0\<close> or \<open>6\<close>, the blocked position \<open>nx\<close> is ten
  steps of \<open>0.01\<close> away, and the sliding loop stops there at the latest.
\<close>

lemma same_tiles_refl: "same_tiles hb g g"
  by (simp add: same_tiles_def)

lemma same_tiles_trans: "same_tiles hb g g1 \<Longrightarrow> same_tiles hb g1 g2 \<Longrightarrow> same_tiles hb g g2"
  by (simp add: same_tiles_def)

lemma same_tiles_sym: "same_tiles hb g g1 \<Longrightarrow> same_tiles hb g1 g"
  by (simp add: same_tiles_def)

lemma same_tiles_player: "same_tiles hb g (g\<lparr>player := p\<rparr>)"
  by (simp add: same_tiles_def getTile_def ensureChunk_def Let_def split: option.splits)

lemma same_tiles_ensureChunk: "same_tiles hb g (snd (ensureChunk hb g cx cy))"
proof (cases "chunks g (ck cx cy)")
  case (Some c)
  then show ?thesis by (simp add: ensureChunk_resident same_tiles_refl)
next
  case None
  let ?g2 = "g\<lparr>chunks := (chunks g)(ck cx cy \<mapsto> generateChunk hb (SEED g) cx cy)\<rparr>"
  have "fst (getTile hb ?g2 wx wy) = fst (getTile hb g wx wy)" for wx wy
  proof (cases "ck (chunk_coord wx) (chunk_coord wy) = ck cx cy")
    case True
    then have "chunk_coord wx = cx \<and> chunk_coord wy = cy" by (rule ck_inj)
    then show ?thesis
      using None by (simp add: getTile_def ensureChunk_def Let_def)
  next
    case False
    then show ?thesis
      by (simp add: getTile_def ensureChunk_def Let_def split: option.splits)
  qed
  then show ?thesis by (simp add: ensureChunk_fresh [OF None] same_tiles_def)
qed

lemma same_tiles_getTile: "same_tiles hb g (snd (getTile hb g wx wy))"
  by (simp add: getTile_snd same_tiles_ensureChunk)

lemma same_tiles_scan:
  "same_tiles hb g g' \<Longrightarrow>
   fst (scan_cells hb g' cs) = fst (scan_cells hb g cs) \<and> same_tiles hb g (snd (scan_cells hb g' cs))"
proof (induction cs arbitrary: g g')
  case Nil
  then show ?case by simp
next
  case (Cons c cs)
  obtain tx ty where c: "c = (tx, ty)" by (cases c)
  let ?g1 = "snd (getTile hb g (of_int tx) (of_int ty))"
  let ?g1' = "snd (getTile hb g' (of_int tx) (of_int ty))"
  have t: "fst (getTile hb g' (of_int tx) (of_int ty)) = fst (getTile hb g (of_int tx) (of_int ty))"
    using Cons.prems by (simp add: same_tiles_def)
  have a: "same_tiles hb g ?g1'"
    using Cons.prems same_tiles_getTile by (rule same_tiles_trans)
  have "same_tiles hb ?g1 g" using same_tiles_getTile by (rule same_tiles_sym)
  then have b: "same_tiles hb ?g1 ?g1'" using a by (rule same_tiles_trans)
  have ih: "fst (scan_cells hb ?g1' cs) = fst (scan_cells hb ?g1 cs)"
    "same_tiles hb ?g1 (snd (scan_cells hb ?g1' cs))"
    using Cons.IH [OF b] by simp_all
  have d: "same_tiles hb g (snd (scan_cells hb ?g1' cs))"
    using same_tiles_getTile ih(2) by (rule same_tiles_trans)
  show ?case
    using t a ih(1) d by (simp add: c case_prod_beta Let_def)
qed

lemma collides_same_tiles:
  assumes "same_tiles hb g g'"
  shows "fst (rectCollidesWithTiles hb g' x y w h) = fst (rectCollidesWithTiles hb g x y w h)"
    and "same_tiles hb g (snd (rectCollidesWithTiles hb g' x y w h))"
  using same_tiles_scan [OF assms] by (simp_all add: rectCollidesWithTiles_def)

lemma slide_returns:
  assumes "fst (rectCollidesWithTiles hb g (px (player g) + sign * (of_nat (Suc n) / 100))
                  (py (player g)) (pw (player g)) (ph (player g)))"
  shows "\<exists>g'. slide hb sign g = Some g'"
  using assms
proof (induction n arbitrary: g)
  case 0
  then show ?case by (subst slide.simps) (simp add: case_prod_beta Let_def)
next
  case (Suc n)
  let ?p = "player g"
  let ?r = "rectCollidesWithTiles hb g (px ?p + sign * (1 / 100)) (py ?p) (pw ?p) (ph ?p)"
  show ?case
  proof (cases "sign \<noteq> 0 \<and> \<not> fst ?r")
    case False
    then show ?thesis by (subst slide.simps) (auto simp: case_prod_beta Let_def)
  next
    case True
    let ?g2 = "move_x (snd ?r) (sign * (1 / 100))"
    have p2: "player ?g2 = ?p\<lparr>px := px ?p + sign * (1 / 100)\<rparr>"
      by (simp add: move_x_def rectCollides_others)
    have "same_tiles hb g (snd ?r)" using same_tiles_refl by (rule collides_same_tiles(2))
    then have st: "same_tiles hb g ?g2"
      unfolding move_x_def using same_tiles_player by (rule same_tiles_trans)
    have x2: "px (player ?g2) + sign * (of_nat (Suc n) / 100)
              = px ?p + sign * (of_nat (Suc (Suc n)) / 100)"
      unfolding p2 by (simp add: algebra_simps)
    have y2: "py (player ?g2) = py ?p" "pw (player ?g2) = pw ?p" "ph (player ?g2) = ph ?p"
      unfolding p2 by simp_all
    have "fst (rectCollidesWithTiles hb ?g2 (px (player ?g2) + sign * (of_nat (Suc n) / 100))
                  (py (player ?g2)) (pw (player ?g2)) (ph (player ?g2)))"
      unfolding x2 y2 collides_same_tiles(1) [OF st] by (rule Suc.prems)
    then have "\<exists>g'. slide hb sign ?g2 = Some g'" by (rule Suc.IH)
    then show ?thesis
      using True by (subst slide.simps) (simp add: case_prod_beta Let_def)
  qed
qed

lemma input_velocity:
  "pvx (player (gravity dt (apply_input g))) \<in> {- 6, 0, 6}"
  by (simp add: gravity_def apply_input_def Let_def)

lemma horizontal_returns:
  assumes "pvx (player g) \<in> {- 6, 0, 6}"
  shows "\<exists>g'. horizontal hb (px (player g) + pvx (player g) * STEP) g = Some g'"
proof -
  let ?p = "player g"
  let ?nx = "px ?p + pvx ?p * STEP"
  let ?r = "rectCollidesWithTiles hb g ?nx (py ?p) (pw ?p) (ph ?p)"
  show ?thesis
  proof (cases "fst ?r")
    case False
    then show ?thesis by (simp add: horizontal_def Let_def case_prod_beta)
  next
    case True
    let ?g1 = "snd ?r"
    have st: "same_tiles hb g ?g1" using same_tiles_refl by (rule collides_same_tiles(2))
    have p1: "player ?g1 = ?p" by (simp add: rectCollides_others)
    have "\<exists>g'. slide hb (sgn (pvx ?p)) ?g1 = Some g'"
    proof (cases "pvx ?p = 0")
      case True
      then show ?thesis by (subst slide.simps) simp
    next
      case False
      then have e: "px ?p + sgn (pvx ?p) * (of_nat (Suc 9) / 100) = ?nx"
        using assms by auto
      have "fst (rectCollidesWithTiles hb ?g1
                   (px (player ?g1) + sgn (pvx ?p) * (of_nat (Suc 9) / 100))
                   (py (player ?g1)) (pw (player ?g1)) (ph (player ?g1)))"
        unfolding p1 collides_same_tiles(1) [OF st] e by (rule True)
      then show ?thesis by (rule slide_returns)
    qed
    then show ?thesis
      using True by (auto simp: horizontal_def Let_def case_prod_beta)
  qed
qed

lemma gameStep_returns: "\<exists>g'. gameStep hb STEP g = Some g'"
proof -
  let ?g1 = "gravity STEP (apply_input g)"
  obtain g2 where "horizontal hb (px (player ?g1) + pvx (player ?g1) * STEP) ?g1 = Some g2"
    using horizontal_returns [OF input_velocity] by blast
  then show ?thesis unfolding gameStep_def Let_def by simp
qed

lemma run_ticks_returns: "\<exists>g'. run_ticks hb ks g = Some g'"
proof (induction ks arbitrary: g)
  case Nil
  show ?case by simp
next
  case (Cons k ks)
  obtain g1 where "gameStep hb STEP (g\<lparr>keys := k\<rparr>) = Some g1"
    using gameStep_returns by blast
  then show ?case using Cons [of g1] by simp
qed

subsection \<open>The effectful generator computes the state-passing one\<close>

text \<open>
  Each pass run in the runtime state touches the cell of its own closure and nothing else,
  and computes on it what the state-passing pass computes. So the chunk
  \<open>generateChunk_rt\<close> returns is \<open>generateChunk\<close> of the seed and the coordinates: the
  function the chunk store calls.
\<close>

lemma with_cell_simps [simp]:
  "rt_cells (with_cell c a rt) c = a"
  "with_cell c a (with_cell c b rt) = with_cell c a rt"
  "with_cell c (rt_cells rt c) rt = rt"
  "rt_script (with_cell c a rt) = rt_script rt"
  "rt_now (with_cell c a rt) = rt_now rt"
  "rt_next (with_cell c a rt) = rt_next rt"
  by (simp_all add: with_cell_def)

lemma call_rng_lift:
  "call_rng c rt = (fst (rng (rt_cells rt c)), with_cell c (snd (rng (rt_cells rt c))) rt)"
  by (simp add: call_rng_def with_cell_def case_prod_beta)

lemma lift_id: "lift c (\<lambda>s. s) st = st"
  by (simp add: lift_def)

lemma lift_comp: "lift c f (lift c g st) = lift c (\<lambda>s. f (g s)) st"
  by (simp add: lift_def)

lemma lift_fold_pointwise: "fold (\<lambda>x. lift c (g x)) xs st = lift c (fold g xs) st"
proof (induction xs arbitrary: st)
  case Nil
  show ?case by (simp add: lift_def)
next
  case (Cons x xs)
  show ?case by (simp add: Cons lift_comp comp_def)
qed

lemma lift_fold:
  assumes "\<And>x st. g_rt x st = lift c (g x) st"
  shows "fold g_rt xs st = lift c (fold g xs) st"
proof -
  have "g_rt = (\<lambda>x. lift c (g x))" by (intro ext) (rule assms)
  then show ?thesis by (simp only: lift_fold_pointwise)
qed

lemma lift_funpow_pointwise: "(lift c f ^^ n) st = lift c (f ^^ n) st"
proof (induction n arbitrary: st)
  case 0
  show ?case by (simp add: lift_def)
next
  case (Suc n)
  show ?case by (simp add: Suc lift_comp comp_def)
qed

lemma lift_funpow:
  assumes "\<And>st. f_rt st = lift c f st"
  shows "(f_rt ^^ n) st = lift c (f ^^ n) st"
proof -
  have "f_rt = lift c f" by (intro ext) (rule assms)
  then show ?thesis by (simp only: lift_funpow_pointwise)
qed

lemma heightmap_column_lift:
  "heightmap_column_rt hb cx cy c x st = lift c (heightmap_column hb cx cy x) st"
  by (simp add: heightmap_column_rt_def heightmap_column_def surface_of_def lift_def
        call_rng_lift Let_def case_prod_beta)

lemma heightmap_lift: "heightmap_rt hb cx cy c st = lift c (heightmap hb cx cy) st"
  unfolding heightmap_rt_def heightmap_def
  by (rule lift_fold) (rule heightmap_column_lift)

lemma walk_step_lift: "walk_step_rt c st = lift c walk_step st"
  by (simp add: walk_step_rt_def walk_step_def lift_def call_rng_lift Let_def case_prod_beta)

lemma tunnel_lift: "tunnel_rt c st = lift c tunnel st"
  by (simp add: tunnel_rt_def tunnel_def lift_funpow [of "walk_step_rt c" c walk_step, OF walk_step_lift]
        lift_def call_rng_lift Let_def case_prod_beta)

lemma caves_lift: "caves_rt c st = lift c caves st"
  by (simp add: caves_rt_def caves_def lift_funpow [of "tunnel_rt c" c tunnel, OF tunnel_lift]
        lift_def call_rng_lift Let_def case_prod_beta)

lemma ore_cell_lift: "ore_cell_rt c x y st = lift c (ore_cell x y) st"
  by (simp add: ore_cell_rt_def ore_cell_def lift_def call_rng_lift Let_def case_prod_beta)

lemma ores_lift: "ores_rt c st = lift c ores st"
  unfolding ores_rt_def ores_def
proof (rule lift_fold)
  fix x and st :: "runtime \<times> grid"
  show "fold (\<lambda>y. ore_cell_rt c x y) [0..<CHUNK_SIZE] st =
        lift c (fold (\<lambda>y. ore_cell x y) [0..<CHUNK_SIZE]) st"
    by (rule lift_fold) (rule ore_cell_lift)
qed

lemma tree_column_lift: "tree_column_rt c x st = lift c (tree_column x) st"
  by (simp add: tree_column_rt_def tree_column_def lift_def call_rng_lift Let_def case_prod_beta
        split: option.splits)

lemma trees_lift: "trees_rt c st = lift c trees st"
  unfolding trees_rt_def trees_def
  by (rule lift_fold) (rule tree_column_lift)

lemma rngFor_rt_cell:
  "rt_cells (snd (rngFor_rt seed cx cy rt)) (fst (rngFor_rt seed cx cy rt)) = rngFor seed cx cy
   \<and> rt_script (snd (rngFor_rt seed cx cy rt)) = rt_script rt"
  by (simp add: rngFor_rt_def rngFor_def new_cell_def call_xmur3_def Let_def case_prod_beta)

lemma generateChunk_rt_refines:
  "fst (generateChunk_rt hb cx cy rt) = generateChunk hb (SEED (rt_script rt)) cx cy
   \<and> rt_script (snd (generateChunk_rt hb cx cy rt)) = rt_script rt"
proof -
  let ?r = "rngFor_rt (SEED (rt_script rt)) cx cy rt"
  have c: "rt_cells (snd ?r) (fst ?r) = rngFor (SEED (rt_script rt)) cx cy"
    and s: "rt_script (snd ?r) = rt_script rt"
    using rngFor_rt_cell [of "SEED (rt_script rt)" cx cy rt] by simp_all
  show ?thesis
    by (simp add: generateChunk_rt_def generateChunk_def Let_def case_prod_beta
          heightmap_lift caves_lift ores_lift trees_lift lift_def c s)
qed

text \<open>
  C1. Chunk generation depends on the seed and the chunk coordinates only. Run the
  generator in any two runtime states that agree on the seed, whatever their clocks, the
  contents of their closure stores, their allocation counters, chunk maps and players are:
  the two chunks are equal, cell for cell. In particular a second generation, run in the
  state the first one leaves behind, returns the same chunk again. The grid has
  \<open>CHUNK_SIZE\<close> rows of \<open>CHUNK_SIZE\<close> tiles.
\<close>

theorem generateChunk_deterministic:
  assumes "SEED (rt_script rt) = SEED (rt_script rt')"
  shows "fst (generateChunk_rt hb cx cy rt) = fst (generateChunk_rt hb cx cy rt')
         \<and> fst (generateChunk_rt hb cx cy (snd (generateChunk_rt hb cx cy rt))) =
             fst (generateChunk_rt hb cx cy rt)
         \<and> grid_ok (tiles (fst (generateChunk_rt hb cx cy rt)))"
  using assms by (simp add: generateChunk_rt_refines generateChunk_grid_ok)

theorem generateChunk_deterministic_witness:
  "SEED (rt_script runtime_a) = SEED (rt_script runtime_b)
   \<and> rt_now runtime_a \<noteq> rt_now runtime_b
   \<and> rt_next runtime_a \<noteq> rt_next runtime_b
   \<and> fst (generateChunk_rt hb_flat 0 0 runtime_a) = fst (generateChunk_rt hb_flat 0 0 runtime_b)
   \<and> fst (generateChunk_rt hb_flat 0 0 (snd (generateChunk_rt hb_flat 0 0 runtime_a))) =
       fst (generateChunk_rt hb_flat 0 0 runtime_a)
   \<and> grid_ok (tiles (fst (generateChunk_rt hb_flat 0 0 runtime_a)))"
proof -
  have s: "SEED (rt_script runtime_a) = SEED (rt_script runtime_b)"
    by (simp add: runtime_a_def runtime_b_def load_config_def js_rem_def)
  have n: "rt_now runtime_a \<noteq> rt_now runtime_b \<and> rt_next runtime_a \<noteq> rt_next runtime_b"
    by (simp add: runtime_a_def runtime_b_def load_config_def)
  from generateChunk_deterministic [OF s, of hb_flat 0 0] s n show ?thesis by blast
qed

end
